theory Spec2Isabelle
  imports Complex_Main
begin

section \<open>The maze generator of \<^verbatim>\<open>client/src/utils/MazeGenerator.ts\<close>\<close>

text \<open>
  The development embeds the class \<^verbatim>\<open>MazeGenerator\<close> function by function.
  JavaScript numbers that hold integers (coordinates, sizes, the generator state) are
  \<^typ>\<open>int\<close>; the fractions the code compares against (\<^verbatim>\<open>density\<close>) are \<^typ>\<open>rat\<close>.
  A value returned by \<^verbatim>\<open>this.rng()\<close> is the exact quotient \<open>state / 233280\<close>; the
  rounding of that quotient to a double is not modelled, so \<^verbatim>\<open>Math.floor(this.rng() * n)\<close>
  is \<open>\<lfloor>state * n / 233280\<rfloor>\<close>.
\<close>

subsection \<open>Types (\<^verbatim>\<open>Types.ts\<close>)\<close>

datatype TileType = EMPTY | WALL | FLOOR | SPAWN | KEY_SPAWN | DOOR | EXIT

text \<open>\<^verbatim>\<open>Vector2\<close> is \<^verbatim>\<open>{x, y}\<close>: the pair \<open>(x, y)\<close>.\<close>

type_synonym Vector2 = "int \<times> int"

datatype MazeAlgorithm = RECURSIVE_BACKTRACKING | CELLULAR_AUTOMATA | BINARY_TREE | PERLIN_CAVES

text \<open>
  The errors a call can end with. \<open>TypeError\<close> is what JavaScript throws on a property
  access on \<^verbatim>\<open>undefined\<close> (a row outside the grid, an entry outside a list);
  \<open>RangeError\<close> is thrown by \<^verbatim>\<open>Array(n)\<close> for a negative \<open>n\<close>.
  \<open>ConfigurationError\<close> and \<open>InfeasibleLevelError\<close> are the names of the
  specification's taxonomy; no function of the source constructs them.
\<close>

datatype error = TypeError | RangeError | ConfigurationError | InfeasibleLevelError

subsection \<open>The seeded random source\<close>

text \<open>
  JavaScript's \<^verbatim>\<open>%\<close> is the truncated remainder: its sign is the sign of the dividend.
\<close>

definition jsmod :: "int \<Rightarrow> int \<Rightarrow> int" where
  "jsmod a m = (if 0 \<le> a then a mod m else - ((- a) mod m))"

text \<open>
  A double holds every integer up to \<open>2^53\<close> in absolute value; a larger exact result is
  rounded to 53 significant bits, ties to even. \<open>fl\<close> is that rounding on integers (the
  product and the sum in \<^verbatim>\<open>state * 9301 + 49297\<close> are integers before rounding).
\<close>

text \<open>The number of binary digits of a positive integer.\<close>

function bitlen :: "int \<Rightarrow> nat" where
  "bitlen a = (if a \<le> 0 then 0 else Suc (bitlen (a div 2)))"
  by pat_completeness auto
termination
  by (relation "measure nat") auto

declare bitlen.simps [simp del]

definition fl :: "int \<Rightarrow> int" where
  "fl v =
     (let a = \<bar>v\<bar> in
      if a \<le> 2 ^ 53 then v
      else
        let e = bitlen a - 53;
            q = a div 2 ^ e;
            r = a mod 2 ^ e;
            h = 2 ^ (e - 1);
            q' = (if h < r \<or> (r = h \<and> odd q) then q + 1 else q)
        in sgn v * (q' * 2 ^ e))"

text \<open>
  \<^verbatim>\<open>state = (state * 9301 + 49297) % 233280; return state / 233280;\<close>
  The closure's variable \<^verbatim>\<open>state\<close> is threaded explicitly: \<open>rng_step\<close> is the new state,
  \<open>rng_value\<close> the number returned from it.
\<close>

definition rng_step :: "int \<Rightarrow> int" where
  "rng_step state = jsmod (fl (fl (state * 9301) + 49297)) 233280"

definition rng_value :: "int \<Rightarrow> rat" where
  "rng_value state = of_int state / 233280"

text \<open>The \<open>n\<close>-th value (\<open>n = 0\<close> is the first call) of the source made from \<open>seed\<close>.\<close>

definition createSeededRandom :: "int \<Rightarrow> nat \<Rightarrow> rat" where
  "createSeededRandom seed n = rng_value ((rng_step ^^ Suc n) seed)"

text \<open>\<^verbatim>\<open>Math.floor(this.rng() * n)\<close> for the state the call has just produced.\<close>

definition rng_index :: "int \<Rightarrow> int \<Rightarrow> int" where
  "rng_index state n = (state * n) div 233280"

text \<open>
  The generator object: \<^verbatim>\<open>this.seed\<close> and the state of \<^verbatim>\<open>this.rng\<close>.
  The constructor reads the clock when \<^verbatim>\<open>seed\<close> is absent or falsy
  (\<^verbatim>\<open>this.seed = seed || Date.now()\<close>); the clock reading is the parameter \<open>now\<close>.
\<close>

record generator =
  gen_seed :: int
  gen_state :: int

definition MazeGenerator_new :: "int option \<Rightarrow> int \<Rightarrow> generator" where
  "MazeGenerator_new seed now =
     (let s = (case seed of None \<Rightarrow> now | Some v \<Rightarrow> if v = 0 then now else v)
      in \<lparr> gen_seed = s, gen_state = s \<rparr>)"

subsection \<open>Results, loops and lists\<close>

text \<open>
  A function that can throw returns \<open>error + 'a\<close>, with \<open>Inl\<close> the error thrown; two
  steps are sequenced by a \<open>case\<close> on the first result. \<open>forE\<close> is a \<^verbatim>\<open>for\<close> loop over the
  list of values of its index, stopping at the first error; the body of each loop of the
  source is a function of its own, named after what it does.
\<close>

fun forE :: "('a \<Rightarrow> 's \<Rightarrow> error + 's) \<Rightarrow> 'a list \<Rightarrow> 's \<Rightarrow> error + 's" where
  "forE body [] s = Inr s"
| "forE body (a # as) s = (case body a s of Inl e \<Rightarrow> Inl e | Inr s' \<Rightarrow> forE body as s')"

text \<open>\<^verbatim>\<open>xs[i]\<close>: \<^verbatim>\<open>undefined\<close> (\<open>None\<close>) outside the list.\<close>

definition pick :: "'a list \<Rightarrow> int \<Rightarrow> 'a option" where
  "pick xs i = (if 0 \<le> i \<and> i < int (length xs) then Some (xs ! nat i) else None)"

text \<open>\<^verbatim>\<open>Math.abs(a.x - b.x) + Math.abs(a.y - b.y)\<close>\<close>

definition manhattan :: "Vector2 \<Rightarrow> Vector2 \<Rightarrow> int" where
  "manhattan a b = \<bar>fst a - fst b\<bar> + \<bar>snd a - snd b\<bar>"

subsection \<open>The tile grid \<^verbatim>\<open>TileType[][]\<close>\<close>

text \<open>
  A JavaScript array is an object with a \<^verbatim>\<open>length\<close> and properties keyed by index: a
  write beyond the end extends the array, a write at a negative index sets a property and
  leaves the length alone, a read of an absent index is \<^verbatim>\<open>undefined\<close>. The source relies
  on none of this on purpose but reaches all of it (rooms larger than the grid), so a
  layout records exactly that: \<open>rows\<close> is \<^verbatim>\<open>layout.length\<close>, \<open>rowlen layout y\<close> is
  \<^verbatim>\<open>layout[y].length\<close>, and \<open>cell layout y x\<close> is \<^verbatim>\<open>layout[y][x]\<close> with \<open>None\<close> for
  \<^verbatim>\<open>undefined\<close>. The outer array is only ever extended row by row, so its rows are the
  indices \<open>0 \<le> y < rows\<close>; touching \<^verbatim>\<open>layout[y]\<close> outside them yields \<^verbatim>\<open>undefined\<close>, and the
  property access on it throws \<open>TypeError\<close>.
\<close>

record Layout =
  rows :: int
  rowlen :: "int \<Rightarrow> int"
  cell :: "int \<Rightarrow> int \<Rightarrow> TileType option"

definition emptyLayout :: Layout where
  "emptyLayout = \<lparr> rows = 0, rowlen = (\<lambda>y. 0), cell = (\<lambda>y x. None) \<rparr>"

text \<open>\<^verbatim>\<open>layout[y] = []\<close>\<close>

definition pushRow :: "Layout \<Rightarrow> int \<Rightarrow> Layout" where
  "pushRow layout y =
     \<lparr> rows = max (rows layout) (y + 1),
       rowlen = (rowlen layout)(y := 0),
       cell = (cell layout)(y := (\<lambda>x. None)) \<rparr>"

text \<open>\<^verbatim>\<open>layout[y][x] = v\<close>\<close>

definition setCell :: "Layout \<Rightarrow> int \<Rightarrow> int \<Rightarrow> TileType option \<Rightarrow> error + Layout" where
  "setCell layout x y v =
     (if 0 \<le> y \<and> y < rows layout
      then Inr \<lparr> rows = rows layout,
                 rowlen = (rowlen layout)(y := max (rowlen layout y) (x + 1)),
                 cell = (cell layout)(y := (cell layout y)(x := v)) \<rparr>
      else Inl TypeError)"

text \<open>\<^verbatim>\<open>layout[y][x]\<close>\<close>

definition getCell :: "Layout \<Rightarrow> int \<Rightarrow> int \<Rightarrow> error + TileType option" where
  "getCell layout x y = (if 0 \<le> y \<and> y < rows layout then Inr (cell layout y x) else Inl TypeError)"

text \<open>\<^verbatim>\<open>layout[y].length\<close>\<close>

definition rowLength :: "Layout \<Rightarrow> int \<Rightarrow> error + int" where
  "rowLength layout y = (if 0 \<le> y \<and> y < rows layout then Inr (rowlen layout y) else Inl TypeError)"

text \<open>\<^verbatim>\<open>layout[y][x] = t\<close> as the body of a loop over \<open>x\<close>.\<close>

definition putTile :: "TileType \<Rightarrow> int \<Rightarrow> int \<Rightarrow> Layout \<Rightarrow> error + Layout" where
  "putTile t y x layout = setCell layout x y (Some t)"

text \<open>
  The initialisation loops
  \<^verbatim>\<open>for (y = 0; y < height; y++) { layout[y] = []; for (x = 0; x < width; x++) layout[y][x] = WALL; }\<close>
\<close>

definition fillRow :: "int \<Rightarrow> TileType \<Rightarrow> int \<Rightarrow> Layout \<Rightarrow> error + Layout" where
  "fillRow width t y layout = forE (putTile t y) [0..width - 1] (pushRow layout y)"

definition wallLayout :: "int \<Rightarrow> int \<Rightarrow> error + Layout" where
  "wallLayout width height = forE (fillRow width WALL) [0..height - 1] emptyLayout"

subsection \<open>Options\<close>

text \<open>
  \<^verbatim>\<open>MazeGenerationOptions\<close>; an optional field is an \<open>option\<close>, and the
  fields carry the prefix \<open>opt_\<close>. The field \<^verbatim>\<open>seed\<close> of the options is never read by the
  generator (the seed is the constructor's argument).
\<close>

record MazeGenerationOptions =
  opt_width :: int
  opt_height :: int
  opt_algorithm :: MazeAlgorithm
  opt_seed :: "int option"
  opt_density :: "rat option"
  opt_iterations :: "int option"
  opt_minRoomSize :: "int option"
  opt_maxRoomSize :: "int option"
  opt_roomCount :: "int option"

text \<open>\<^verbatim>\<open>v || d\<close> on an optional number: \<open>d\<close> when \<open>v\<close> is absent or \<open>0\<close>.\<close>

definition orElse :: "int option \<Rightarrow> int \<Rightarrow> int" where
  "orElse v d = (case v of None \<Rightarrow> d | Some n \<Rightarrow> if n = 0 then d else n)"

text \<open>A destructuring default \<^verbatim>\<open>{ v = d }\<close>: \<open>d\<close> only when \<open>v\<close> is absent.\<close>

definition orDefault :: "'a option \<Rightarrow> 'a \<Rightarrow> 'a" where
  "orDefault v d = (case v of None \<Rightarrow> d | Some n \<Rightarrow> n)"

subsection \<open>Cellular automata rule and cave smoothing\<close>

text \<open>
  The offsets of the loops \<^verbatim>\<open>for (dy = -1..1) for (dx = -1..1)\<close>, in their order, as
  \<open>(dx, dy)\<close>. The offset \<open>(0, 0)\<close> is among them: the source does not skip the cell itself.
\<close>

definition offsets :: "(int \<times> int) list" where
  "offsets = [(-1, -1), (0, -1), (1, -1), (-1, 0), (0, 0), (1, 0), (-1, 1), (0, 1), (1, 1)]"

text \<open>
  The body of the counting loops of \<^verbatim>\<open>applyCellularAutomataRules\<close> for the cell \<open>(x, y)\<close>
  and the offset \<open>d\<close> (the counter \<^verbatim>\<open>floorCount\<close> is never read and is left out).
\<close>

definition countNeighbor :: "Layout \<Rightarrow> int \<Rightarrow> int \<Rightarrow> int \<Rightarrow> int \<Rightarrow> int \<times> int \<Rightarrow> int \<Rightarrow> error + int" where
  "countNeighbor layout width height x y d wallCount =
     (if x + fst d < 0 \<or> x + fst d \<ge> width \<or> y + snd d < 0 \<or> y + snd d \<ge> height
      then Inr (wallCount + 1)
      else (case getCell layout (x + fst d) (y + snd d) of
              Inl e \<Rightarrow> Inl e
            | Inr t \<Rightarrow> Inr (if t = Some WALL then wallCount + 1 else wallCount)))"

definition caWallCount :: "Layout \<Rightarrow> int \<Rightarrow> int \<Rightarrow> int \<Rightarrow> int \<Rightarrow> error + int" where
  "caWallCount layout width height x y = forE (countNeighbor layout width height x y) offsets 0"

definition caCell :: "Layout \<Rightarrow> int \<Rightarrow> int \<Rightarrow> int \<Rightarrow> int \<Rightarrow> Layout \<Rightarrow> error + Layout" where
  "caCell layout width height y x newLayout =
     (case caWallCount layout width height x y of
        Inl e \<Rightarrow> Inl e
      | Inr wallCount \<Rightarrow> setCell newLayout x y (Some (if wallCount \<ge> 5 then WALL else FLOOR)))"

definition caRow :: "Layout \<Rightarrow> int \<Rightarrow> int \<Rightarrow> int \<Rightarrow> Layout \<Rightarrow> error + Layout" where
  "caRow layout width height y newLayout =
     forE (caCell layout width height y) [0..width - 1] (pushRow newLayout y)"

definition applyCellularAutomataRules :: "Layout \<Rightarrow> int \<Rightarrow> int \<Rightarrow> error + Layout" where
  "applyCellularAutomataRules layout width height =
     forE (caRow layout width height) [0..height - 1] emptyLayout"

text \<open>
  \<^verbatim>\<open>JSON.parse(JSON.stringify(layout))\<close>: a copy of the indexed elements; properties at
  other keys are dropped (a hole becomes \<^verbatim>\<open>null\<close>, which like \<^verbatim>\<open>undefined\<close> is no tile).
\<close>

definition jsonCopy :: "Layout \<Rightarrow> Layout" where
  "jsonCopy layout =
     \<lparr> rows = rows layout, rowlen = rowlen layout,
       cell = (\<lambda>y x. if 0 \<le> y \<and> y < rows layout \<and> 0 \<le> x \<and> x < rowlen layout y
                       then cell layout y x else None) \<rparr>"

text \<open>The loops of \<^verbatim>\<open>smoothCaves\<close>: the count reads the nine cells without a bounds test.\<close>

definition smoothNeighbor :: "Layout \<Rightarrow> int \<Rightarrow> int \<Rightarrow> int \<times> int \<Rightarrow> int \<Rightarrow> error + int" where
  "smoothNeighbor layout x y d wallCount =
     (case getCell layout (x + fst d) (y + snd d) of
        Inl e \<Rightarrow> Inl e
      | Inr t \<Rightarrow> Inr (if t = Some WALL then wallCount + 1 else wallCount))"

definition smoothWallCount :: "Layout \<Rightarrow> int \<Rightarrow> int \<Rightarrow> error + int" where
  "smoothWallCount layout x y = forE (smoothNeighbor layout x y) offsets 0"

definition smoothCell :: "Layout \<Rightarrow> int \<Rightarrow> int \<Rightarrow> Layout \<Rightarrow> error + Layout" where
  "smoothCell layout y x newLayout =
     (case smoothWallCount layout x y of
        Inl e \<Rightarrow> Inl e
      | Inr wallCount \<Rightarrow> setCell newLayout x y (Some (if wallCount \<ge> 5 then WALL else FLOOR)))"

definition smoothRow :: "Layout \<Rightarrow> int \<Rightarrow> int \<Rightarrow> Layout \<Rightarrow> error + Layout" where
  "smoothRow layout width y newLayout = forE (smoothCell layout y) [1..width - 2] newLayout"

definition copyCell :: "Layout \<Rightarrow> int \<Rightarrow> int \<Rightarrow> Layout \<Rightarrow> error + Layout" where
  "copyCell newLayout y x layout =
     (case getCell newLayout x y of Inl e \<Rightarrow> Inl e | Inr t \<Rightarrow> setCell layout x y t)"

definition copyRow :: "Layout \<Rightarrow> int \<Rightarrow> int \<Rightarrow> Layout \<Rightarrow> error + Layout" where
  "copyRow newLayout width y layout = forE (copyCell newLayout y) [0..width - 1] layout"

definition smoothCaves :: "Layout \<Rightarrow> error + Layout" where
  "smoothCaves layout =
     (case rowLength layout 0 of
        Inl e \<Rightarrow> Inl e
      | Inr width \<Rightarrow>
          (case forE (smoothRow layout width) [1..rows layout - 2] (jsonCopy layout) of
             Inl e \<Rightarrow> Inl e
           | Inr newLayout \<Rightarrow> forE (copyRow newLayout width) [0..rows layout - 1] layout))"

subsection \<open>Recursive backtracking\<close>

text \<open>The four \<^verbatim>\<open>directions\<close>, as \<open>(x, y)\<close>: north, east, south, west.\<close>

definition directions :: "Vector2 list" where
  "directions = [(0, -2), (2, 0), (0, 2), (-2, 0)]"

text \<open>
  \<^verbatim>\<open>visited\<close> is a grid of booleans of the layout's size, read and written only at
  cells the guards keep inside it: \<open>visited y x\<close> is \<^verbatim>\<open>visited[y][x]\<close>.
\<close>

definition markVisited :: "(int \<Rightarrow> int \<Rightarrow> bool) \<Rightarrow> int \<Rightarrow> int \<Rightarrow> (int \<Rightarrow> int \<Rightarrow> bool)" where
  "markVisited visited x y = visited(y := (visited y)(x := True))"

definition unvisitedNeighbor :: "int \<Rightarrow> int \<Rightarrow> (int \<Rightarrow> int \<Rightarrow> bool) \<Rightarrow> Vector2 \<Rightarrow> bool" where
  "unvisitedNeighbor width height visited p =
     (fst p > 0 \<and> fst p < width - 1 \<and> snd p > 0 \<and> snd p < height - 1 \<and> \<not> visited (snd p) (fst p))"

definition stepFrom :: "Vector2 \<Rightarrow> Vector2 \<Rightarrow> Vector2" where
  "stepFrom current dir = (fst current + fst dir, snd current + snd dir)"

definition rbNeighbors :: "int \<Rightarrow> int \<Rightarrow> (int \<Rightarrow> int \<Rightarrow> bool) \<Rightarrow> Vector2 \<Rightarrow> Vector2 list" where
  "rbNeighbors width height visited current =
     filter (unvisitedNeighbor width height visited) (map (stepFrom current) directions)"

text \<open>
  The \<^verbatim>\<open>while (stack.length > 0)\<close> loop. The head of the list is the top of the stack
  (\<^verbatim>\<open>stack[stack.length - 1]\<close>). \<open>st\<close> is the state of the random source.
\<close>

function rbLoop :: "int \<Rightarrow> int \<Rightarrow> Layout \<Rightarrow> (int \<Rightarrow> int \<Rightarrow> bool) \<Rightarrow> Vector2 list \<Rightarrow> int
    \<Rightarrow> error + (Layout \<times> int)" where
  "rbLoop width height layout visited stack st =
     (case stack of
        [] \<Rightarrow> Inr (layout, st)
      | current # rest \<Rightarrow>
          (if rbNeighbors width height visited current \<noteq> [] then
             (case pick (rbNeighbors width height visited current)
                     (rng_index (rng_step st) (int (length (rbNeighbors width height visited current)))) of
                None \<Rightarrow> Inl TypeError
              | Some nxt \<Rightarrow>
                  (case setCell layout (fst current + (fst nxt - fst current) div 2)
                                       (snd current + (snd nxt - snd current) div 2) (Some FLOOR) of
                     Inl e \<Rightarrow> Inl e
                   | Inr l1 \<Rightarrow>
                       (case setCell l1 (fst nxt) (snd nxt) (Some FLOOR) of
                          Inl e \<Rightarrow> Inl e
                        | Inr l2 \<Rightarrow>
                            rbLoop width height l2 (markVisited visited (fst nxt) (snd nxt))
                              (nxt # stack) (rng_step st))))
           else rbLoop width height layout visited rest st))"
  by pat_completeness auto

definition unvisitedInner :: "int \<Rightarrow> int \<Rightarrow> (int \<Rightarrow> int \<Rightarrow> bool) \<Rightarrow> Vector2 set" where
  "unvisitedInner width height visited =
     {p \<in> {1..width - 2} \<times> {1..height - 2}. \<not> visited (snd p) (fst p)}"

lemma unvisitedInner_mark:
  assumes "0 < x" "x < width - 1" "0 < y" "y < height - 1" "\<not> visited y x"
  shows "card (unvisitedInner width height (markVisited visited x y))
         < card (unvisitedInner width height visited)"
proof -
  have fin: "finite (unvisitedInner width height visited)"
    by (simp add: unvisitedInner_def)
  have mem: "(x, y) \<in> unvisitedInner width height visited"
    using assms by (simp add: unvisitedInner_def)
  have sub: "unvisitedInner width height (markVisited visited x y)
             \<subseteq> unvisitedInner width height visited - {(x, y)}"
    by (auto simp: unvisitedInner_def markVisited_def split: if_splits)
  have "card (unvisitedInner width height visited - {(x, y)}) < card (unvisitedInner width height visited)"
    using fin mem by (meson card_Diff1_less)
  moreover have "card (unvisitedInner width height (markVisited visited x y))
                 \<le> card (unvisitedInner width height visited - {(x, y)})"
    using sub fin by (simp add: card_mono)
  ultimately show ?thesis by linarith
qed

lemma pick_in_set: "pick xs i = Some v \<Longrightarrow> v \<in> set xs"
  by (auto simp: pick_def split: if_splits)

lemma rbNeighbors_inner:
  "p \<in> set (rbNeighbors width height visited current) \<Longrightarrow>
     0 < fst p \<and> fst p < width - 1 \<and> 0 < snd p \<and> snd p < height - 1 \<and> \<not> visited (snd p) (fst p)"
  by (auto simp: rbNeighbors_def unvisitedNeighbor_def)

termination rbLoop
proof (relation "measure (\<lambda>(width, height, layout, visited, stack, st).
                   2 * card (unvisitedInner width height visited) + length stack)", goal_cases)
  case 1
  show ?case by simp
next
  case (2 width height layout visited stack st current rest nxt l1 l2)
  have "nxt \<in> set (rbNeighbors width height visited current)"
    using 2 by (auto dest: pick_in_set)
  then have "card (unvisitedInner width height (markVisited visited (fst nxt) (snd nxt)))
             < card (unvisitedInner width height visited)"
    by (intro unvisitedInner_mark) (auto dest: rbNeighbors_inner)
  then show ?case using 2 by simp
next
  case (3 width height layout visited stack st current rest)
  then show ?case by simp
qed

declare rbLoop.simps [simp del]

text \<open>
  \<^verbatim>\<open>connectRoomToMaze\<close>. \<open>addConnection layout guard x y c\<close> is
  \<^verbatim>\<open>if (guard && layout[y][x] === FLOOR) connections.push(c)\<close>: the row is only touched
  when the guard holds. The two scans collect the candidates in the order of the source.
\<close>

definition addConnection :: "Layout \<Rightarrow> bool \<Rightarrow> int \<Rightarrow> int \<Rightarrow> Vector2 \<Rightarrow> Vector2 list \<Rightarrow> error + Vector2 list" where
  "addConnection layout guard x y c connections =
     (if guard then
        (case getCell layout x y of
           Inl e \<Rightarrow> Inl e
         | Inr t \<Rightarrow> Inr (if t = Some FLOOR then connections @ [c] else connections))
      else Inr connections)"

definition scanTopBottom :: "Layout \<Rightarrow> int \<Rightarrow> int \<Rightarrow> int \<Rightarrow> Vector2 list \<Rightarrow> error + Vector2 list" where
  "scanTopBottom layout roomY roomHeight x connections =
     (case addConnection layout (roomY > 1) x (roomY - 2) (x, roomY - 1) connections of
        Inl e \<Rightarrow> Inl e
      | Inr c1 \<Rightarrow>
          addConnection layout (roomY + roomHeight < rows layout - 1) x (roomY + roomHeight + 1)
            (x, roomY + roomHeight) c1)"

definition scanLeftRight :: "Layout \<Rightarrow> int \<Rightarrow> int \<Rightarrow> int \<Rightarrow> Vector2 list \<Rightarrow> error + Vector2 list" where
  "scanLeftRight layout roomX roomWidth y connections =
     (case addConnection layout (roomX > 1) (roomX - 2) y (roomX - 1, y) connections of
        Inl e \<Rightarrow> Inl e
      | Inr c1 \<Rightarrow>
          (case rowLength layout 0 of
             Inl e \<Rightarrow> Inl e
           | Inr width \<Rightarrow>
               addConnection layout (roomX + roomWidth < width - 1) (roomX + roomWidth + 1) y
                 (roomX + roomWidth, y) c1))"

definition connectRoomToMaze :: "Layout \<Rightarrow> int \<Rightarrow> int \<Rightarrow> int \<Rightarrow> int \<Rightarrow> int \<Rightarrow> error + (Layout \<times> int)" where
  "connectRoomToMaze layout roomX roomY roomWidth roomHeight st =
     (case forE (scanTopBottom layout roomY roomHeight) [roomX..roomX + roomWidth - 1] [] of
        Inl e \<Rightarrow> Inl e
      | Inr c \<Rightarrow>
          (case forE (scanLeftRight layout roomX roomWidth) [roomY..roomY + roomHeight - 1] c of
             Inl e \<Rightarrow> Inl e
           | Inr connections \<Rightarrow>
               if connections \<noteq> [] then
                 (case pick connections (rng_index (rng_step st) (int (length connections))) of
                    None \<Rightarrow> Inl TypeError
                  | Some connection \<Rightarrow>
                      (case setCell layout (fst connection) (snd connection) (Some FLOOR) of
                         Inl e \<Rightarrow> Inl e
                       | Inr l \<Rightarrow> Inr (l, rng_step st)))
               else Inr (layout, st)))"

text \<open>
  The body of the loop of \<^verbatim>\<open>addRandomRooms\<close>. \<open>roomSpan lo n\<close> lists the values of
  \<^verbatim>\<open>for (v = lo; v < lo + n; v++)\<close>; \<open>carveRoom\<close> is the pair of carving loops and the
  connection; \<open>addRoom\<close> makes the four draws, in the order of the source.
\<close>

definition carveRow :: "int \<Rightarrow> int \<Rightarrow> int \<Rightarrow> Layout \<Rightarrow> error + Layout" where
  "carveRow roomX roomWidth y layout = forE (putTile FLOOR y) [roomX..roomX + roomWidth - 1] layout"

definition carveRoom :: "Layout \<Rightarrow> int \<Rightarrow> int \<Rightarrow> int \<Rightarrow> int \<Rightarrow> int \<Rightarrow> error + (Layout \<times> int)" where
  "carveRoom layout roomX roomY roomWidth roomHeight st =
     (case forE (carveRow roomX roomWidth) [roomY..roomY + roomHeight - 1] layout of
        Inl e \<Rightarrow> Inl e
      | Inr l \<Rightarrow> connectRoomToMaze l roomX roomY roomWidth roomHeight st)"

definition roomSize :: "int \<Rightarrow> int \<Rightarrow> int \<Rightarrow> int" where
  "roomSize minSize maxSize st = minSize + rng_index st (maxSize - minSize + 1)"

definition roomOrigin :: "int \<Rightarrow> int \<Rightarrow> int \<Rightarrow> int" where
  "roomOrigin extent roomExtent st = 1 + rng_index st (extent - roomExtent - 2)"

definition addRoom :: "int \<Rightarrow> int \<Rightarrow> int \<Rightarrow> int \<Rightarrow> int \<Rightarrow> Layout \<times> int \<Rightarrow> error + (Layout \<times> int)" where
  "addRoom width height minSize maxSize i ls =
     (let s1 = rng_step (snd ls);
          roomWidth = roomSize minSize maxSize s1;
          s2 = rng_step s1;
          roomHeight = roomSize minSize maxSize s2;
          s3 = rng_step s2;
          roomX = roomOrigin width roomWidth s3;
          s4 = rng_step s3;
          roomY = roomOrigin height roomHeight s4
      in carveRoom (fst ls) roomX roomY roomWidth roomHeight s4)"

definition addRandomRooms :: "Layout \<Rightarrow> int \<Rightarrow> int \<Rightarrow> int \<Rightarrow> int \<Rightarrow> error + (Layout \<times> int)" where
  "addRandomRooms layout minSize maxSize count st =
     (case rowLength layout 0 of
        Inl e \<Rightarrow> Inl e
      | Inr width \<Rightarrow> forE (addRoom width (rows layout) minSize maxSize) [0..count - 1] (layout, st))"

text \<open>
  \<^verbatim>\<open>Array(height).fill(null).map(() => Array(width).fill(false))\<close> throws \<open>RangeError\<close> for a
  negative \<^verbatim>\<open>height\<close>, and for a negative \<^verbatim>\<open>width\<close> as soon as there is a row to map.
\<close>

definition generateRecursiveBacktracking :: "MazeGenerationOptions \<Rightarrow> int \<Rightarrow> error + (Layout \<times> int)" where
  "generateRecursiveBacktracking options st =
     (case wallLayout (opt_width options) (opt_height options) of
        Inl e \<Rightarrow> Inl e
      | Inr layout \<Rightarrow>
          if opt_height options < 0 \<or> (0 < opt_height options \<and> opt_width options < 0)
          then Inl RangeError
          else
            (case setCell layout 1 1 (Some FLOOR) of
               Inl e \<Rightarrow> Inl e
             | Inr l1 \<Rightarrow>
                 (case rbLoop (opt_width options) (opt_height options) l1
                         (markVisited (\<lambda>y x. False) 1 1) [(1, 1)] st of
                    Inl e \<Rightarrow> Inl e
                  | Inr ls \<Rightarrow>
                      addRandomRooms (fst ls) (orElse (opt_minRoomSize options) 3)
                        (orElse (opt_maxRoomSize options) 7) (orElse (opt_roomCount options) 3)
                        (snd ls))))"

subsection \<open>Binary tree\<close>

text \<open>The index values of \<^verbatim>\<open>for (i = 1; i < n - 1; i += 2)\<close>.\<close>

definition oddsBelow :: "int \<Rightarrow> int list" where
  "oddsBelow n = filter odd [1..n - 2]"

text \<open>The list \<^verbatim>\<open>directions\<close> built for the cell \<open>(x, y)\<close>: north when \<open>y > 1\<close>, west when \<open>x > 1\<close>.\<close>

definition treeDirections :: "int \<Rightarrow> int \<Rightarrow> Vector2 list" where
  "treeDirections x y = (if y > 1 then [(0, -1)] else []) @ (if x > 1 then [(-1, 0)] else [])"

definition binaryTreeCell :: "int \<Rightarrow> int \<Rightarrow> Layout \<times> int \<Rightarrow> error + (Layout \<times> int)" where
  "binaryTreeCell y x ls =
     (case setCell (fst ls) x y (Some FLOOR) of
        Inl e \<Rightarrow> Inl e
      | Inr l1 \<Rightarrow>
          if treeDirections x y \<noteq> [] then
            (case pick (treeDirections x y)
                    (rng_index (rng_step (snd ls)) (int (length (treeDirections x y)))) of
               None \<Rightarrow> Inl TypeError
             | Some dir \<Rightarrow>
                 (case setCell l1 (x + fst dir) (y + snd dir) (Some FLOOR) of
                    Inl e \<Rightarrow> Inl e
                  | Inr l2 \<Rightarrow> Inr (l2, rng_step (snd ls))))
          else Inr (l1, snd ls))"

definition binaryTreeRow :: "int \<Rightarrow> int \<Rightarrow> Layout \<times> int \<Rightarrow> error + (Layout \<times> int)" where
  "binaryTreeRow width y ls = forE (binaryTreeCell y) (oddsBelow width) ls"

definition generateBinaryTree :: "MazeGenerationOptions \<Rightarrow> int \<Rightarrow> error + (Layout \<times> int)" where
  "generateBinaryTree options st =
     (case wallLayout (opt_width options) (opt_height options) of
        Inl e \<Rightarrow> Inl e
      | Inr layout \<Rightarrow>
          forE (binaryTreeRow (opt_width options)) (oddsBelow (opt_height options)) (layout, st))"

subsection \<open>Connectivity repair\<close>

text \<open>
  \<^verbatim>\<open>floodFill\<close>: the loop over the stack. The head of the list is the top of the stack, so
  the four pushes of the source appear in reverse order; \<open>region\<close> grows at its end, as
  \<^verbatim>\<open>region.push\<close> does. The guard keeps every read inside the grid.
\<close>

function floodLoop :: "Layout \<Rightarrow> int \<Rightarrow> int \<Rightarrow> (int \<Rightarrow> int \<Rightarrow> bool) \<Rightarrow> Vector2 list \<Rightarrow> Vector2 list
    \<Rightarrow> Vector2 list \<times> (int \<Rightarrow> int \<Rightarrow> bool)" where
  "floodLoop layout width height visited stack region =
     (case stack of
        [] \<Rightarrow> (region, visited)
      | p # rest \<Rightarrow>
          (if fst p < 0 \<or> fst p \<ge> width \<or> snd p < 0 \<or> snd p \<ge> height \<or> visited (snd p) (fst p) \<or>
              cell layout (snd p) (fst p) \<noteq> Some FLOOR
           then floodLoop layout width height visited rest region
           else floodLoop layout width height (markVisited visited (fst p) (snd p))
                  ((fst p, snd p - 1) # (fst p, snd p + 1) # (fst p - 1, snd p) # (fst p + 1, snd p) # rest)
                  (region @ [p])))"
  by pat_completeness auto

definition unvisitedIn :: "int \<Rightarrow> int \<Rightarrow> (int \<Rightarrow> int \<Rightarrow> bool) \<Rightarrow> Vector2 set" where
  "unvisitedIn width height visited =
     {p \<in> {0..width - 1} \<times> {0..height - 1}. \<not> visited (snd p) (fst p)}"

lemma unvisitedIn_mark:
  assumes "0 \<le> x" "x < width" "0 \<le> y" "y < height" "\<not> visited y x"
  shows "card (unvisitedIn width height (markVisited visited x y))
         < card (unvisitedIn width height visited)"
proof -
  have fin: "finite (unvisitedIn width height visited)"
    by (simp add: unvisitedIn_def)
  have mem: "(x, y) \<in> unvisitedIn width height visited"
    using assms by (simp add: unvisitedIn_def)
  have sub: "unvisitedIn width height (markVisited visited x y)
             \<subseteq> unvisitedIn width height visited - {(x, y)}"
    by (auto simp: unvisitedIn_def markVisited_def split: if_splits)
  have "card (unvisitedIn width height visited - {(x, y)}) < card (unvisitedIn width height visited)"
    using fin mem by (meson card_Diff1_less)
  moreover have "card (unvisitedIn width height (markVisited visited x y))
                 \<le> card (unvisitedIn width height visited - {(x, y)})"
    using sub fin by (simp add: card_mono)
  ultimately show ?thesis by linarith
qed

termination floodLoop
proof (relation "measure (\<lambda>(layout, width, height, visited, stack, region).
                   5 * card (unvisitedIn width height visited) + length stack)", goal_cases)
  case 1
  show ?case by simp
next
  case (2 layout width height visited stack region p rest)
  then show ?case by simp
next
  case (3 layout width height visited stack region p rest)
  then have "card (unvisitedIn width height (markVisited visited (fst p) (snd p)))
             < card (unvisitedIn width height visited)"
    by (intro unvisitedIn_mark) auto
  then show ?case using 3 by simp
qed

declare floodLoop.simps [simp del]

definition floodFill :: "Layout \<Rightarrow> (int \<Rightarrow> int \<Rightarrow> bool) \<Rightarrow> int \<Rightarrow> int
    \<Rightarrow> error + (Vector2 list \<times> (int \<Rightarrow> int \<Rightarrow> bool))" where
  "floodFill layout visited startX startY =
     (case rowLength layout 0 of
        Inl e \<Rightarrow> Inl e
      | Inr width \<Rightarrow> Inr (floodLoop layout width (rows layout) visited [(startX, startY)] []))"

text \<open>
  \<^verbatim>\<open>carveConnection\<close>: the cells of the horizontal leg (from \<^verbatim>\<open>start.x\<close> up to but not
  including \<^verbatim>\<open>end.x\<close>, in row \<^verbatim>\<open>start.y\<close>), then of the vertical leg (in column \<^verbatim>\<open>end.x\<close>,
  up to but not including \<^verbatim>\<open>end.y\<close>), then the end point. \<open>walk a b\<close> lists the values the
  loop variable takes in \<^verbatim>\<open>while (v !== b) { ...; v += v < b ? 1 : -1 }\<close> started at \<open>a\<close>.
\<close>

definition walk :: "int \<Rightarrow> int \<Rightarrow> int list" where
  "walk a b = (if a \<le> b then [a..b - 1] else rev [b + 1..a])"

definition carvePath :: "Vector2 \<Rightarrow> Vector2 \<Rightarrow> Vector2 list" where
  "carvePath start end =
     map (\<lambda>x. (x, snd start)) (walk (fst start) (fst end)) @
     map (\<lambda>y. (fst end, y)) (walk (snd start) (snd end)) @ [end]"

definition carveStep :: "Vector2 \<Rightarrow> Layout \<Rightarrow> error + Layout" where
  "carveStep p layout = setCell layout (fst p) (snd p) (Some FLOOR)"

definition carveConnection :: "Layout \<Rightarrow> Vector2 \<Rightarrow> Vector2 \<Rightarrow> error + Layout" where
  "carveConnection layout start end = forE carveStep (carvePath start end) layout"

text \<open>
  \<^verbatim>\<open>connectRegions\<close>: the exhaustive scan keeps the first pair of least distance
  (\<^verbatim>\<open>distance < bestDistance\<close>). \<open>None\<close> is the initial state, \<^verbatim>\<open>bestDistance = Infinity\<close>
  and \<^verbatim>\<open>bestConnection = null\<close>.
\<close>

definition closerPair :: "(int \<times> Vector2 \<times> Vector2) option \<Rightarrow> Vector2 \<times> Vector2
    \<Rightarrow> (int \<times> Vector2 \<times> Vector2) option" where
  "closerPair best pq =
     (case best of
        None \<Rightarrow> Some (manhattan (fst pq) (snd pq), fst pq, snd pq)
      | Some b \<Rightarrow> if manhattan (fst pq) (snd pq) < fst b
                  then Some (manhattan (fst pq) (snd pq), fst pq, snd pq) else Some b)"

definition bestConnection :: "Vector2 list \<Rightarrow> Vector2 list \<Rightarrow> (int \<times> Vector2 \<times> Vector2) option" where
  "bestConnection region1 region2 = foldl closerPair None (List.product region1 region2)"

definition connectRegions :: "Layout \<Rightarrow> Vector2 list \<Rightarrow> Vector2 list \<Rightarrow> error + Layout" where
  "connectRegions layout region1 region2 =
     (case bestConnection region1 region2 of
        None \<Rightarrow> Inr layout
      | Some b \<Rightarrow> carveConnection layout (fst (snd b)) (snd (snd b)))"

text \<open>
  \<^verbatim>\<open>ensureConnectivity\<close>: the scan for regions (only those of more than 10 cells are
  kept), then one connection from the first kept region to each later one.
\<close>

definition keepRegion :: "Vector2 list list \<Rightarrow> Vector2 list \<Rightarrow> Vector2 list list" where
  "keepRegion regions region = (if length region > 10 then regions @ [region] else regions)"

definition scanCell :: "Layout \<Rightarrow> int \<Rightarrow> int \<Rightarrow> (int \<Rightarrow> int \<Rightarrow> bool) \<times> Vector2 list list
    \<Rightarrow> error + ((int \<Rightarrow> int \<Rightarrow> bool) \<times> Vector2 list list)" where
  "scanCell layout y x vr =
     (if cell layout y x = Some FLOOR \<and> \<not> fst vr y x
      then (case floodFill layout (fst vr) x y of
              Inl e \<Rightarrow> Inl e
            | Inr rv \<Rightarrow> Inr (snd rv, keepRegion (snd vr) (fst rv)))
      else Inr vr)"

definition scanRow :: "Layout \<Rightarrow> int \<Rightarrow> int \<Rightarrow> (int \<Rightarrow> int \<Rightarrow> bool) \<times> Vector2 list list
    \<Rightarrow> error + ((int \<Rightarrow> int \<Rightarrow> bool) \<times> Vector2 list list)" where
  "scanRow layout width y vr = forE (scanCell layout y) [0..width - 1] vr"

definition findRegions :: "Layout \<Rightarrow> int \<Rightarrow> int \<Rightarrow> error + ((int \<Rightarrow> int \<Rightarrow> bool) \<times> Vector2 list list)" where
  "findRegions layout width height = forE (scanRow layout width) [0..height - 1] (\<lambda>y x. False, [])"

definition connectTo :: "Vector2 list \<Rightarrow> Vector2 list \<Rightarrow> Layout \<Rightarrow> error + Layout" where
  "connectTo region1 region layout = connectRegions layout region1 region"

definition ensureConnectivity :: "Layout \<Rightarrow> error + Layout" where
  "ensureConnectivity layout =
     (case rowLength layout 0 of
        Inl e \<Rightarrow> Inl e
      | Inr width \<Rightarrow>
          (case findRegions layout width (rows layout) of
             Inl e \<Rightarrow> Inl e
           | Inr vr \<Rightarrow>
               if length (snd vr) > 1
               then forE (connectTo (hd (snd vr))) (tl (snd vr)) layout
               else Inr layout))"

subsection \<open>Cellular automata\<close>

definition caInitCell :: "rat \<Rightarrow> int \<Rightarrow> int \<Rightarrow> Layout \<times> int \<Rightarrow> error + (Layout \<times> int)" where
  "caInitCell dens y x ls =
     (case setCell (fst ls) x y (Some (if rng_value (rng_step (snd ls)) < dens then WALL else FLOOR)) of
        Inl e \<Rightarrow> Inl e
      | Inr l \<Rightarrow> Inr (l, rng_step (snd ls)))"

definition caInitRow :: "rat \<Rightarrow> int \<Rightarrow> int \<Rightarrow> Layout \<times> int \<Rightarrow> error + (Layout \<times> int)" where
  "caInitRow dens width y ls = forE (caInitCell dens y) [0..width - 1] (pushRow (fst ls) y, snd ls)"

definition caIteration :: "int \<Rightarrow> int \<Rightarrow> int \<Rightarrow> Layout \<Rightarrow> error + Layout" where
  "caIteration width height i layout = applyCellularAutomataRules layout width height"

definition generateCellularAutomata :: "MazeGenerationOptions \<Rightarrow> int \<Rightarrow> error + (Layout \<times> int)" where
  "generateCellularAutomata options st =
     (case forE (caInitRow (orDefault (opt_density options) (45 / 100)) (opt_width options))
             [0..opt_height options - 1] (emptyLayout, st) of
        Inl e \<Rightarrow> Inl e
      | Inr ls \<Rightarrow>
          (case forE (caIteration (opt_width options) (opt_height options))
                  [0..orDefault (opt_iterations options) 5 - 1] (fst ls) of
             Inl e \<Rightarrow> Inl e
           | Inr l \<Rightarrow>
               (case ensureConnectivity l of
                  Inl e \<Rightarrow> Inl e
                | Inr l' \<Rightarrow> Inr (l', snd ls))))"

subsection \<open>Noise caves\<close>

text \<open>
  \<^verbatim>\<open>noise(x, y)\<close> is \<^verbatim>\<open>frac(Math.sin(x * 12.9898 + y * 78.233 + seed) * 43758.5453)\<close>, a
  floating-point function of the two arguments and of \<^verbatim>\<open>this.seed\<close>. It is a parameter
  here, \<open>noise seed x y\<close>: what is proved holds for every such function.
\<close>

definition combinedNoise :: "(int \<Rightarrow> rat \<Rightarrow> rat \<Rightarrow> rat) \<Rightarrow> int \<Rightarrow> int \<Rightarrow> int \<Rightarrow> rat" where
  "combinedNoise noise sd x y =
     noise sd (of_int x * (1 / 10)) (of_int y * (1 / 10)) +
     noise sd (of_int x * (5 / 100)) (of_int y * (5 / 100)) * (1 / 2) +
     noise sd (of_int x * (2 / 10)) (of_int y * (2 / 10)) * (1 / 4)"

definition perlinCell :: "(int \<Rightarrow> rat \<Rightarrow> rat \<Rightarrow> rat) \<Rightarrow> int \<Rightarrow> rat \<Rightarrow> int \<Rightarrow> int \<Rightarrow> Layout \<Rightarrow> error + Layout" where
  "perlinCell noise sd dens y x layout =
     setCell layout x y (Some (if combinedNoise noise sd x y > dens then WALL else FLOOR))"

definition perlinRow :: "(int \<Rightarrow> rat \<Rightarrow> rat \<Rightarrow> rat) \<Rightarrow> int \<Rightarrow> rat \<Rightarrow> int \<Rightarrow> int \<Rightarrow> Layout \<Rightarrow> error + Layout" where
  "perlinRow noise sd dens width y layout =
     forE (perlinCell noise sd dens y) [0..width - 1] (pushRow layout y)"

definition smoothRound :: "int \<Rightarrow> Layout \<Rightarrow> error + Layout" where
  "smoothRound i layout = smoothCaves layout"

definition generatePerlinCaves :: "(int \<Rightarrow> rat \<Rightarrow> rat \<Rightarrow> rat) \<Rightarrow> int \<Rightarrow> MazeGenerationOptions
    \<Rightarrow> error + Layout" where
  "generatePerlinCaves noise sd options =
     (case forE (perlinRow noise sd (orDefault (opt_density options) (4 / 10)) (opt_width options))
             [0..opt_height options - 1] emptyLayout of
        Inl e \<Rightarrow> Inl e
      | Inr layout \<Rightarrow> forE smoothRound [0..2] layout)"

subsection \<open>Boundary walls and floor tiles\<close>

definition wallTopBottom :: "int \<Rightarrow> int \<Rightarrow> Layout \<Rightarrow> error + Layout" where
  "wallTopBottom height x layout =
     (case setCell layout x 0 (Some WALL) of
        Inl e \<Rightarrow> Inl e
      | Inr l \<Rightarrow> setCell l x (height - 1) (Some WALL))"

definition wallLeftRight :: "int \<Rightarrow> int \<Rightarrow> Layout \<Rightarrow> error + Layout" where
  "wallLeftRight width y layout =
     (case setCell layout 0 y (Some WALL) of
        Inl e \<Rightarrow> Inl e
      | Inr l \<Rightarrow> setCell l (width - 1) y (Some WALL))"

definition ensureBoundaryWalls :: "Layout \<Rightarrow> error + Layout" where
  "ensureBoundaryWalls layout =
     (case rowLength layout 0 of
        Inl e \<Rightarrow> Inl e
      | Inr width \<Rightarrow>
          (case forE (wallTopBottom (rows layout)) [0..width - 1] layout of
             Inl e \<Rightarrow> Inl e
           | Inr l1 \<Rightarrow> forE (wallLeftRight width) [0..rows layout - 1] l1))"

definition floorsOfRow :: "Layout \<Rightarrow> int \<Rightarrow> Vector2 list" where
  "floorsOfRow layout y =
     map (\<lambda>x. (x, y)) (filter (\<lambda>x. cell layout y x = Some FLOOR) [0..rowlen layout y - 1])"

definition findFloorTiles :: "Layout \<Rightarrow> Vector2 list" where
  "findFloorTiles layout = concat (map (floorsOfRow layout) [0..rows layout - 1])"

subsection \<open>Placement\<close>

text \<open>
  \<^verbatim>\<open>floorTiles[Math.floor(this.rng() * floorTiles.length)]\<close> after the draw that led to the
  state \<open>st\<close>. The template \<^verbatim>\<open>`${tile.x},${tile.y}`\<close> throws when the entry is \<^verbatim>\<open>undefined\<close>.
  The keys are strings \<^verbatim>\<open>"x,y"\<close>, equal exactly when the coordinates are, so a
  \<^verbatim>\<open>Set<string>\<close> of keys is a set of coordinates.
\<close>

definition drawTile :: "Vector2 list \<Rightarrow> int \<Rightarrow> Vector2 option" where
  "drawTile floorTiles st = pick floorTiles (rng_index st (int (length floorTiles)))"

definition tooClose :: "Vector2 \<Rightarrow> Vector2 \<Rightarrow> bool" where
  "tooClose tile spawn = (manhattan spawn tile < 5)"

text \<open>The \<^verbatim>\<open>while (attempts < maxAttempts)\<close> loop of \<^verbatim>\<open>generateSpawnPoints\<close>.\<close>

function spawnAttempts :: "int \<Rightarrow> Vector2 list \<Rightarrow> Vector2 list \<Rightarrow> Vector2 set \<Rightarrow> int
    \<Rightarrow> error + (Vector2 list \<times> Vector2 set \<times> int)" where
  "spawnAttempts attempts floorTiles spawns used st =
     (if attempts < 100 then
        (case drawTile floorTiles (rng_step st) of
           None \<Rightarrow> Inl TypeError
         | Some tile \<Rightarrow>
             if tile \<notin> used \<and> \<not> list_ex (tooClose tile) spawns
             then Inr (spawns @ [tile], insert tile used, rng_step st)
             else spawnAttempts (attempts + 1) floorTiles spawns used (rng_step st))
      else Inr (spawns, used, st))"
  by pat_completeness auto
termination
  by (relation "measure (\<lambda>(attempts, floorTiles, spawns, used, st). nat (100 - attempts))") auto

declare spawnAttempts.simps [simp del]

text \<open>The body of \<^verbatim>\<open>for (i = 0; i < count && spawns.length < count; i++)\<close>.\<close>

definition spawnSlot :: "Vector2 list \<Rightarrow> int \<Rightarrow> int \<Rightarrow> Vector2 list \<times> Vector2 set \<times> int
    \<Rightarrow> error + (Vector2 list \<times> Vector2 set \<times> int)" where
  "spawnSlot floorTiles count i sus =
     (if int (length (fst sus)) < count
      then spawnAttempts 0 floorTiles (fst sus) (fst (snd sus)) (snd (snd sus))
      else Inr sus)"

text \<open>
  The relaxed loop \<^verbatim>\<open>while (spawns.length < count && spawns.length < floorTiles.length)\<close>
  has no bound on its iterations: not returning is the value \<open>None\<close>.
\<close>

partial_function (option) relaxedSpawns :: "Vector2 list \<Rightarrow> int \<Rightarrow> Vector2 list \<Rightarrow> Vector2 set \<Rightarrow> int
    \<Rightarrow> (error + (Vector2 list \<times> int)) option" where
  "relaxedSpawns floorTiles count spawns used st =
     (if int (length spawns) < count \<and> length spawns < length floorTiles then
        (case drawTile floorTiles (rng_step st) of
           None \<Rightarrow> Some (Inl TypeError)
         | Some tile \<Rightarrow>
             if tile \<notin> used
             then relaxedSpawns floorTiles count (spawns @ [tile]) (insert tile used) (rng_step st)
             else relaxedSpawns floorTiles count spawns used (rng_step st))
      else Some (Inr (spawns, st)))"

definition generateSpawnPoints :: "Vector2 list \<Rightarrow> int \<Rightarrow> int \<Rightarrow> (error + (Vector2 list \<times> int)) option" where
  "generateSpawnPoints floorTiles count st =
     (case forE (spawnSlot floorTiles count) [0..count - 1] ([], {}, st) of
        Inl e \<Rightarrow> Some (Inl e)
      | Inr sus \<Rightarrow> relaxedSpawns floorTiles count (fst sus) (fst (snd sus)) (snd (snd sus)))"

text \<open>The \<^verbatim>\<open>while (attempts < maxAttempts && keys.length < count)\<close> loop of \<^verbatim>\<open>generateKeySpawns\<close>.\<close>

function keyAttempts :: "int \<Rightarrow> Vector2 list \<Rightarrow> int \<Rightarrow> Vector2 list \<Rightarrow> Vector2 set \<Rightarrow> int
    \<Rightarrow> error + (Vector2 list \<times> Vector2 set \<times> int)" where
  "keyAttempts attempts floorTiles count keys used st =
     (if attempts < 100 \<and> int (length keys) < count then
        (case drawTile floorTiles (rng_step st) of
           None \<Rightarrow> Inl TypeError
         | Some tile \<Rightarrow>
             if tile \<notin> used
             then Inr (keys @ [tile], insert tile used, rng_step st)
             else keyAttempts (attempts + 1) floorTiles count keys used (rng_step st))
      else Inr (keys, used, st))"
  by pat_completeness auto
termination
  by (relation "measure (\<lambda>(attempts, floorTiles, count, keys, used, st). nat (100 - attempts))") auto

declare keyAttempts.simps [simp del]

definition keySlot :: "Vector2 list \<Rightarrow> int \<Rightarrow> int \<Rightarrow> Vector2 list \<times> Vector2 set \<times> int
    \<Rightarrow> error + (Vector2 list \<times> Vector2 set \<times> int)" where
  "keySlot floorTiles count i kus =
     (if int (length (fst kus)) < count
      then keyAttempts 0 floorTiles count (fst kus) (fst (snd kus)) (snd (snd kus))
      else Inr kus)"

definition generateKeySpawns :: "Vector2 list \<Rightarrow> Vector2 list \<Rightarrow> int \<Rightarrow> int \<Rightarrow> error + (Vector2 list \<times> int)" where
  "generateKeySpawns floorTiles spawnPoints count st =
     (case forE (keySlot floorTiles count) [0..count - 1] ([], set spawnPoints, st) of
        Inl e \<Rightarrow> Inl e
      | Inr kus \<Rightarrow> Inr (fst kus, snd (snd kus)))"

text \<open>
  \<^verbatim>\<open>generateDoorPositions\<close>. First scan: the wall cells of the inner rows and columns with
  at least one floor cell among the four neighbours. The bounds of the neighbour test use
  \<^verbatim>\<open>layout[0].length\<close> and \<^verbatim>\<open>layout.length\<close>.
\<close>

definition isFloorAt :: "Layout \<Rightarrow> Vector2 \<Rightarrow> bool" where
  "isFloorAt layout pos =
     (fst pos \<ge> 0 \<and> fst pos < rowlen layout 0 \<and> snd pos \<ge> 0 \<and> snd pos < rows layout \<and>
      cell layout (snd pos) (fst pos) = Some FLOOR)"

definition adjacentFloors :: "Layout \<Rightarrow> int \<Rightarrow> int \<Rightarrow> Vector2 list" where
  "adjacentFloors layout x y =
     filter (isFloorAt layout) [(x - 1, y), (x + 1, y), (x, y - 1), (x, y + 1)]"

definition isDoorCandidate :: "Layout \<Rightarrow> int \<Rightarrow> int \<Rightarrow> bool" where
  "isDoorCandidate layout y x =
     (cell layout y x = Some WALL \<and> length (adjacentFloors layout x y) \<ge> 1)"

definition candidatesOfRow :: "Layout \<Rightarrow> int \<Rightarrow> Vector2 list" where
  "candidatesOfRow layout y =
     map (\<lambda>x. (x, y)) (filter (isDoorCandidate layout y) [1..rowlen layout y - 2])"

definition doorCandidates :: "Layout \<Rightarrow> Vector2 list" where
  "doorCandidates layout = concat (map (candidatesOfRow layout) [1..rows layout - 2])"

text \<open>
  Second scan, run when the first found fewer than \<^verbatim>\<open>count\<close>: the wall cells two or more
  cells away from the edge. \<^verbatim>\<open>used\<close> is empty when the scan starts and receives only the
  cells this scan pushes.
\<close>

definition fallbackCell :: "Layout \<Rightarrow> int \<Rightarrow> Vector2 list \<times> Vector2 set \<Rightarrow> int \<Rightarrow> Vector2 list \<times> Vector2 set" where
  "fallbackCell layout y pu x =
     (if cell layout y x = Some WALL \<and> (x, y) \<notin> snd pu
      then (fst pu @ [(x, y)], insert (x, y) (snd pu)) else pu)"

definition fallbackRow :: "Layout \<Rightarrow> Vector2 list \<times> Vector2 set \<Rightarrow> int \<Rightarrow> Vector2 list \<times> Vector2 set" where
  "fallbackRow layout pu y = foldl (fallbackCell layout y) pu [2..rowlen layout y - 3]"

definition fallbackDoors :: "Layout \<Rightarrow> Vector2 list \<Rightarrow> Vector2 list" where
  "fallbackDoors layout potentialDoors =
     fst (foldl (fallbackRow layout) (potentialDoors, {}) [2..rows layout - 3])"

text \<open>
  \<^verbatim>\<open>potentialDoors.splice(index, 1)[0]\<close>: a negative index counts from the end. An index
  at or past the end would remove nothing and yield \<^verbatim>\<open>undefined\<close>, which \<^verbatim>\<open>placeSpecialTiles\<close>
  would dereference; that case is reported as the \<open>TypeError\<close> it leads to (it cannot
  occur: the index drawn is below the length, lemma \<open>rng_index_less\<close>).
\<close>

definition spliceStart :: "int \<Rightarrow> int \<Rightarrow> int" where
  "spliceStart n i = (if i < 0 then max (n + i) 0 else min i n)"

definition spliceOne :: "Vector2 list \<Rightarrow> int \<Rightarrow> (Vector2 \<times> Vector2 list) option" where
  "spliceOne xs i =
     (if spliceStart (int (length xs)) i < int (length xs)
      then Some (xs ! nat (spliceStart (int (length xs)) i),
                 take (nat (spliceStart (int (length xs)) i)) xs @
                 drop (Suc (nat (spliceStart (int (length xs)) i))) xs)
      else None)"

text \<open>
  The selection loop
  \<^verbatim>\<open>for (i = 0; i < count && doors.length < count && potentialDoors.length > 0; i++)\<close>.
\<close>

function selectDoors :: "int \<Rightarrow> int \<Rightarrow> Vector2 list \<Rightarrow> Vector2 list \<Rightarrow> int \<Rightarrow> error + (Vector2 list \<times> int)" where
  "selectDoors i count doors potentialDoors st =
     (if i < count \<and> int (length doors) < count \<and> length potentialDoors > 0 then
        (case spliceOne potentialDoors (rng_index (rng_step st) (int (length potentialDoors))) of
           None \<Rightarrow> Inl TypeError
         | Some dr \<Rightarrow> selectDoors (i + 1) count (doors @ [fst dr]) (snd dr) (rng_step st))
      else Inr (doors, st))"
  by pat_completeness auto
termination
  by (relation "measure (\<lambda>(i, count, doors, potentialDoors, st). nat (count - i))") auto

declare selectDoors.simps [simp del]

declare relaxedSpawns.simps [code]

text \<open>\<open>potentialDoors\<close> as the selection loop finds it. The parameter \<^verbatim>\<open>floorTiles\<close> is not used by the source.\<close>

definition potentialDoors :: "Layout \<Rightarrow> int \<Rightarrow> Vector2 list" where
  "potentialDoors layout count =
     (if int (length (doorCandidates layout)) < count
      then fallbackDoors layout (doorCandidates layout) else doorCandidates layout)"

definition generateDoorPositions :: "Layout \<Rightarrow> Vector2 list \<Rightarrow> int \<Rightarrow> int \<Rightarrow> error + (Vector2 list \<times> int)" where
  "generateDoorPositions layout floorTiles count st =
     selectDoors 0 count [] (potentialDoors layout count) st"

text \<open>
  \<^verbatim>\<open>generateExitPosition\<close>. \<^verbatim>\<open>Math.min(...[])\<close> is \<^verbatim>\<open>Infinity\<close>: a distance is an
  \<open>int option\<close> with \<open>None\<close> for \<^verbatim>\<open>Infinity\<close>. The result is \<^verbatim>\<open>undefined\<close> (\<open>None\<close>) when
  there is no floor tile.
\<close>

definition minDistance :: "Vector2 list \<Rightarrow> Vector2 \<Rightarrow> int option" where
  "minDistance spawnPoints tile =
     (case map (\<lambda>spawn. manhattan spawn tile) spawnPoints of
        [] \<Rightarrow> None
      | d # ds \<Rightarrow> Some (foldl min d ds))"

definition greaterDist :: "int option \<Rightarrow> int option \<Rightarrow> bool" where
  "greaterDist a b =
     (case b of None \<Rightarrow> False | Some bv \<Rightarrow> (case a of None \<Rightarrow> True | Some av \<Rightarrow> av > bv))"

definition exitStep :: "Vector2 list \<Rightarrow> Vector2 option \<times> int option \<Rightarrow> Vector2 \<Rightarrow> Vector2 option \<times> int option" where
  "exitStep spawnPoints bm tile =
     (if greaterDist (minDistance spawnPoints tile) (snd bm)
      then (Some tile, minDistance spawnPoints tile) else bm)"

definition generateExitPosition :: "Vector2 list \<Rightarrow> Vector2 list \<Rightarrow> Vector2 option" where
  "generateExitPosition floorTiles spawnPoints =
     fst (foldl (exitStep spawnPoints) (pick floorTiles 0, Some 0) floorTiles)"

text \<open>\<^verbatim>\<open>placeSpecialTiles\<close> writes the door tiles only.\<close>

definition placeDoor :: "Vector2 \<Rightarrow> Layout \<Rightarrow> error + Layout" where
  "placeDoor door layout = setCell layout (fst door) (snd door) (Some DOOR)"

definition placeSpecialTiles :: "Layout \<Rightarrow> Vector2 list \<Rightarrow> Vector2 list \<Rightarrow> Vector2 list \<Rightarrow> Vector2
    \<Rightarrow> error + Layout" where
  "placeSpecialTiles layout spawnPoints keySpawns doorPositions exitPosition =
     forE placeDoor doorPositions layout"

subsection \<open>Maze assembly\<close>

text \<open>
  \<^verbatim>\<open>MazeData\<close>, fields prefixed with \<open>m_\<close>. The \<^verbatim>\<open>id\<close> is \<^verbatim>\<open>`maze_${this.seed}_${Date.now()}`\<close>:
  the pair of the seed and the clock reading \<open>now\<close> at the end of the call.
\<close>

record MazeData =
  m_id :: "int \<times> int"
  m_width :: int
  m_height :: int
  m_layout :: Layout
  m_spawnPoints :: "Vector2 list"
  m_keySpawns :: "Vector2 list"
  m_doorPositions :: "Vector2 list"
  m_exitPosition :: Vector2
  m_theme :: string

text \<open>The \<^verbatim>\<open>switch\<close> on the algorithm: the carved layout and the state of the random source.\<close>

definition carve :: "(int \<Rightarrow> rat \<Rightarrow> rat \<Rightarrow> rat) \<Rightarrow> generator \<Rightarrow> MazeGenerationOptions \<Rightarrow> error + (Layout \<times> int)" where
  "carve noise g options =
     (case opt_algorithm options of
        RECURSIVE_BACKTRACKING \<Rightarrow> generateRecursiveBacktracking options (gen_state g)
      | CELLULAR_AUTOMATA \<Rightarrow> generateCellularAutomata options (gen_state g)
      | BINARY_TREE \<Rightarrow> generateBinaryTree options (gen_state g)
      | PERLIN_CAVES \<Rightarrow>
          (case generatePerlinCaves noise (gen_seed g) options of
             Inl e \<Rightarrow> Inl e
           | Inr l \<Rightarrow> Inr (l, gen_state g)))"

text \<open>
  Everything after the spawn points. The log line for the exit reads \<^verbatim>\<open>exitPosition.x\<close>
  and throws when there is no exit. The loop that counts the door tiles only reads cells
  inside the rows and changes nothing.
\<close>

definition finishMaze :: "generator \<Rightarrow> MazeGenerationOptions \<Rightarrow> int \<Rightarrow> Layout \<Rightarrow> Vector2 list
    \<Rightarrow> Vector2 list \<times> int \<Rightarrow> error + (MazeData \<times> generator)" where
  "finishMaze g options now layout floorTiles ss =
     (case generateKeySpawns floorTiles (fst ss) 6 (snd ss) of
        Inl e \<Rightarrow> Inl e
      | Inr ks \<Rightarrow>
          (case generateDoorPositions layout floorTiles 3 (snd ks) of
             Inl e \<Rightarrow> Inl e
           | Inr ds \<Rightarrow>
               (case generateExitPosition floorTiles (fst ss) of
                  None \<Rightarrow> Inl TypeError
                | Some exitPosition \<Rightarrow>
                    (case placeSpecialTiles layout (fst ss) (fst ks) (fst ds) exitPosition of
                       Inl e \<Rightarrow> Inl e
                     | Inr l \<Rightarrow>
                         Inr (\<lparr> m_id = (gen_seed g, now), m_width = opt_width options,
                                 m_height = opt_height options, m_layout = l,
                                 m_spawnPoints = fst ss, m_keySpawns = fst ks,
                                 m_doorPositions = fst ds, m_exitPosition = exitPosition,
                                 m_theme = ''default'' \<rparr>,
                              \<lparr> gen_seed = gen_seed g, gen_state = snd ds \<rparr>)))))"

text \<open>
  The first two steps of \<^verbatim>\<open>generateMaze\<close>: the layout carved by the chosen algorithm with
  its boundary walled, which is the layout every placement step reads, and the state of
  the random source at that point.
\<close>

definition carveAndWall :: "(int \<Rightarrow> rat \<Rightarrow> rat \<Rightarrow> rat) \<Rightarrow> generator \<Rightarrow> MazeGenerationOptions
    \<Rightarrow> error + (Layout \<times> int)" where
  "carveAndWall noise g options =
     (case carve noise g options of
        Inl e \<Rightarrow> Inl e
      | Inr ls \<Rightarrow>
          (case ensureBoundaryWalls (fst ls) of
             Inl e \<Rightarrow> Inl e
           | Inr layout \<Rightarrow> Inr (layout, snd ls)))"

definition generateMaze :: "(int \<Rightarrow> rat \<Rightarrow> rat \<Rightarrow> rat) \<Rightarrow> generator \<Rightarrow> MazeGenerationOptions \<Rightarrow> int
    \<Rightarrow> (error + (MazeData \<times> generator)) option" where
  "generateMaze noise g options now =
     (case carveAndWall noise g options of
        Inl e \<Rightarrow> Some (Inl e)
      | Inr ls \<Rightarrow>
          (case generateSpawnPoints (findFloorTiles (fst ls)) 4 (snd ls) of
             None \<Rightarrow> None
           | Some (Inl e) \<Rightarrow> Some (Inl e)
           | Some (Inr ss) \<Rightarrow>
               Some (finishMaze g options now (fst ls) (findFloorTiles (fst ls)) ss)))"

subsection \<open>Inputs and observations used in the statements\<close>

text \<open>Options with only the three required fields given.\<close>

definition plainOptions :: "int \<Rightarrow> int \<Rightarrow> MazeAlgorithm \<Rightarrow> MazeGenerationOptions" where
  "plainOptions w h a =
     \<lparr> opt_width = w, opt_height = h, opt_algorithm = a, opt_seed = None, opt_density = None,
       opt_iterations = None, opt_minRoomSize = None, opt_maxRoomSize = None, opt_roomCount = None \<rparr>"

text \<open>A noise function for the runs that never call it (every algorithm but the noise caves).\<close>

definition flatNoise :: "int \<Rightarrow> rat \<Rightarrow> rat \<Rightarrow> rat" where
  "flatNoise sd x y = 0"

text \<open>The maze a call returned, if it returned one; what it threw, if it threw.\<close>

definition mazeOf :: "(error + (MazeData \<times> generator)) option \<Rightarrow> MazeData option" where
  "mazeOf r = (case r of Some (Inr mg) \<Rightarrow> Some (fst mg) | _ \<Rightarrow> None)"

definition thrownBy :: "(error + (MazeData \<times> generator)) option \<Rightarrow> error option" where
  "thrownBy r = (case r of Some (Inl e) \<Rightarrow> Some e | _ \<Rightarrow> None)"

text \<open>
  What the specification compares between two calls: the grid (row lengths and cells)
  and the four coordinate lists, without the \<^verbatim>\<open>id\<close>.
\<close>

definition observable :: "MazeData \<Rightarrow> Layout \<times> Vector2 list \<times> Vector2 list \<times> Vector2 list \<times> Vector2" where
  "observable m = (m_layout m, m_spawnPoints m, m_keySpawns m, m_doorPositions m, m_exitPosition m)"

text \<open>
  The outcome of a call without the \<^verbatim>\<open>id\<close>: not returning, the error thrown, or what the
  maze shows together with the generator the call leaves behind.
\<close>

definition dropId :: "MazeData \<times> generator
    \<Rightarrow> (Layout \<times> Vector2 list \<times> Vector2 list \<times> Vector2 list \<times> Vector2) \<times> generator" where
  "dropId mg = (observable (fst mg), snd mg)"

definition outcome :: "(error + (MazeData \<times> generator)) option
    \<Rightarrow> (error + ((Layout \<times> Vector2 list \<times> Vector2 list \<times> Vector2 list \<times> Vector2) \<times> generator)) option" where
  "outcome r = map_option (map_sum id dropId) r"

text \<open>The tiles of the last column, \<^verbatim>\<open>layout[y][width - 1]\<close> for each row of the maze.\<close>

definition columnTile :: "MazeData \<Rightarrow> int \<Rightarrow> TileType option" where
  "columnTile m y = cell (m_layout m) y (m_width m - 1)"

definition lastColumn :: "MazeData \<Rightarrow> TileType option list" where
  "lastColumn m = map (columnTile m) [0..m_height m - 1]"

text \<open>
  The region \<^verbatim>\<open>floodFill\<close> returns when started at \<open>p\<close> with nothing visited, and that
  region next to all floor tiles of a maze.
\<close>

definition floodFrom :: "Vector2 \<Rightarrow> Layout \<Rightarrow> Vector2 list" where
  "floodFrom p layout =
     (case floodFill layout (\<lambda>y x. False) (fst p) (snd p) of Inl e \<Rightarrow> [] | Inr rv \<Rightarrow> fst rv)"

definition floodAndFloors :: "Vector2 \<Rightarrow> MazeData \<Rightarrow> Vector2 list \<times> Vector2 list" where
  "floodAndFloors p m = (floodFrom p (m_layout m), findFloorTiles (m_layout m))"

text \<open>
  The layout at generation time, that is, the one the placement reads before any door is
  baked.
\<close>

definition layoutBefore :: "(int \<Rightarrow> rat \<Rightarrow> rat \<Rightarrow> rat) \<Rightarrow> generator \<Rightarrow> MazeGenerationOptions
    \<Rightarrow> Layout option" where
  "layoutBefore noise g options =
     (case carveAndWall noise g options of Inl e \<Rightarrow> None | Inr ls \<Rightarrow> Some (fst ls))"

text \<open>
  Floor and wall cells, the four neighbours of a cell, and its neighbours that are floor.
\<close>

definition isFloor :: "Layout \<Rightarrow> Vector2 \<Rightarrow> bool" where
  "isFloor layout p = (cell layout (snd p) (fst p) = Some FLOOR)"

definition isWall :: "Layout \<Rightarrow> Vector2 \<Rightarrow> bool" where
  "isWall layout p = (cell layout (snd p) (fst p) = Some WALL)"

definition neighbors4 :: "Vector2 \<Rightarrow> Vector2 list" where
  "neighbors4 p = [(fst p - 1, snd p), (fst p + 1, snd p), (fst p, snd p - 1), (fst p, snd p + 1)]"

definition floorNeighbors :: "Vector2 \<Rightarrow> Layout \<Rightarrow> Vector2 list" where
  "floorNeighbors p layout = filter (isFloor layout) (neighbors4 p)"

definition hasFloorNeighbor :: "Layout \<Rightarrow> Vector2 \<Rightarrow> bool" where
  "hasFloorNeighbor layout p = (floorNeighbors p layout \<noteq> [])"

text \<open>The cells of a row as a list, for displaying a grid.\<close>

definition rowTiles :: "Layout \<Rightarrow> int \<Rightarrow> TileType option list" where
  "rowTiles layout y = map (cell layout y) [0..rowlen layout y - 1]"

text \<open>
  The cellular rule in closed form. \<open>wallsAround layout width height x y\<close> is the number
  of the nine offsets \<open>d\<close> (the offset \<open>(0, 0)\<close> among them) for which the cell
  \<open>(x, y) + d\<close> lies outside \<open>0 \<le> x < width\<close>, \<open>0 \<le> y < height\<close> or holds \<open>WALL\<close>, and
  \<open>majorityTile\<close> is the tile for a count.
\<close>

definition wallOrOutside :: "Layout \<Rightarrow> int \<Rightarrow> int \<Rightarrow> int \<Rightarrow> int \<Rightarrow> int \<times> int \<Rightarrow> bool" where
  "wallOrOutside layout width height x y d =
     (x + fst d < 0 \<or> x + fst d \<ge> width \<or> y + snd d < 0 \<or> y + snd d \<ge> height \<or>
      cell layout (y + snd d) (x + fst d) = Some WALL)"

definition wallsAround :: "Layout \<Rightarrow> int \<Rightarrow> int \<Rightarrow> int \<Rightarrow> int \<Rightarrow> int" where
  "wallsAround layout width height x y =
     int (length (filter (wallOrOutside layout width height x y) offsets))"

definition majorityTile :: "int \<Rightarrow> TileType" where
  "majorityTile n = (if n \<ge> 5 then WALL else FLOOR)"

text \<open>
  The rule as the specification words it: the count runs over the eight neighbours, the
  cell itself excluded, a neighbour outside the grid counting as a wall.
\<close>

definition specNeighbors :: "(int \<times> int) list" where
  "specNeighbors = [(-1, -1), (0, -1), (1, -1), (-1, 0), (1, 0), (-1, 1), (0, 1), (1, 1)]"

definition specWallCount :: "Layout \<Rightarrow> int \<Rightarrow> int \<Rightarrow> int \<Rightarrow> int \<Rightarrow> int" where
  "specWallCount layout width height x y =
     int (length (filter (wallOrOutside layout width height x y) specNeighbors))"

definition specNextTile :: "Layout \<Rightarrow> int \<Rightarrow> int \<Rightarrow> int \<Rightarrow> int \<Rightarrow> TileType" where
  "specNextTile layout width height x y =
     (if specWallCount layout width height x y \<ge> 5 then WALL else FLOOR)"

text \<open>
  A layout of \<open>height\<close> rows of \<open>width\<close> cells each; the layout with the given rows of
  tiles; and the tile at \<open>(x, y)\<close> of the layout a step returned.
\<close>

definition rectangular :: "Layout \<Rightarrow> int \<Rightarrow> int \<Rightarrow> bool" where
  "rectangular layout width height =
     (rows layout = height \<and> list_all (\<lambda>y. rowlen layout y = width) [0..height - 1])"

definition gridOf :: "TileType list list \<Rightarrow> Layout" where
  "gridOf g =
     \<lparr> rows = int (length g),
       rowlen = (\<lambda>y. if 0 \<le> y \<and> y < int (length g) then int (length (g ! nat y)) else 0),
       cell = (\<lambda>y x. if 0 \<le> y \<and> y < int (length g) \<and> 0 \<le> x \<and> x < int (length (g ! nat y))
                       then Some (g ! nat y ! nat x) else None) \<rparr>"

definition tileAfter :: "error + Layout \<Rightarrow> int \<Rightarrow> int \<Rightarrow> TileType option" where
  "tileAfter r x y = (case r of Inl e \<Rightarrow> None | Inr l \<Rightarrow> cell l y x)"

text \<open>
  The invariants of the loops of \<^verbatim>\<open>applyCellularAutomataRules\<close> and \<^verbatim>\<open>smoothCaves\<close>: what
  the layout written to holds when the loop index has reached \<open>k\<close>.
\<close>

definition caRowInv :: "Layout \<Rightarrow> int \<Rightarrow> int \<Rightarrow> int \<Rightarrow> Layout \<Rightarrow> int \<Rightarrow> Layout \<Rightarrow> bool" where
  "caRowInv layout width height y nl k s =
     (rows s = max (rows nl) (y + 1) \<and>
      (\<forall>y'. y' \<noteq> y \<longrightarrow> cell s y' = cell nl y') \<and>
      (\<forall>x. cell s y x = (if 0 \<le> x \<and> x < k then Some (majorityTile (wallsAround layout width height x y)) else None)))"

definition caInv :: "Layout \<Rightarrow> int \<Rightarrow> int \<Rightarrow> int \<Rightarrow> Layout \<Rightarrow> bool" where
  "caInv layout width height k s =
     (rows s = k \<and>
      (\<forall>y x. cell s y x = (if 0 \<le> y \<and> y < k \<and> 0 \<le> x \<and> x < width
                            then Some (majorityTile (wallsAround layout width height x y)) else None)))"

definition smoothRowInv :: "Layout \<Rightarrow> int \<Rightarrow> int \<Rightarrow> Layout \<Rightarrow> int \<Rightarrow> Layout \<Rightarrow> bool" where
  "smoothRowInv layout width y nl k s =
     (rows s = rows nl \<and>
      (\<forall>y' x. cell s y' x = (if y' = y \<and> 1 \<le> x \<and> x < k
                 then Some (majorityTile (wallsAround layout width (rows layout) x y)) else cell nl y' x)))"

definition smoothInv :: "Layout \<Rightarrow> int \<Rightarrow> Layout \<Rightarrow> int \<Rightarrow> Layout \<Rightarrow> bool" where
  "smoothInv layout width nl k s =
     (rows s = rows nl \<and>
      (\<forall>y x. cell s y x = (if 1 \<le> y \<and> y < k \<and> 1 \<le> x \<and> x < width - 1
                 then Some (majorityTile (wallsAround layout width (rows layout) x y)) else cell nl y x)))"

definition copyRowInv :: "Layout \<Rightarrow> int \<Rightarrow> Layout \<Rightarrow> int \<Rightarrow> Layout \<Rightarrow> bool" where
  "copyRowInv nl y l k s =
     (rows s = rows l \<and>
      (\<forall>y' x. cell s y' x = (if y' = y \<and> 0 \<le> x \<and> x < k then cell nl y' x else cell l y' x)))"

definition copyInv :: "Layout \<Rightarrow> int \<Rightarrow> Layout \<Rightarrow> int \<Rightarrow> Layout \<Rightarrow> bool" where
  "copyInv nl width l k s =
     (rows s = rows l \<and>
      (\<forall>y x. cell s y x = (if 0 \<le> y \<and> y < k \<and> 0 \<le> x \<and> x < width then cell nl y x else cell l y x)))"

text \<open>
  Floor paths: \<open>joined layout p q\<close> when \<open>q\<close> is reached from \<open>p\<close> by steps between
  4-adjacent floor cells. \<open>largeRegions layout\<close> is the list of regions the scan of
  \<^verbatim>\<open>ensureConnectivity\<close> keeps, those of more than 10 cells.
\<close>

definition floorStep :: "Layout \<Rightarrow> Vector2 \<Rightarrow> Vector2 \<Rightarrow> bool" where
  "floorStep layout p q = (isFloor layout p \<and> isFloor layout q \<and> manhattan p q = 1)"

definition joined :: "Layout \<Rightarrow> Vector2 \<Rightarrow> Vector2 \<Rightarrow> bool" where
  "joined layout = rtranclp (floorStep layout)"

definition largeRegions :: "Layout \<Rightarrow> Vector2 list list" where
  "largeRegions layout =
     (case rowLength layout 0 of
        Inl e \<Rightarrow> []
      | Inr width \<Rightarrow> (case findRegions layout width (rows layout) of Inl e \<Rightarrow> [] | Inr vr \<Rightarrow> snd vr))"

text \<open>
  What the scan maintains: each region kept consists of floor cells of existing rows,
  any two of them joined by a floor path.
\<close>

definition goodRegion :: "Layout \<Rightarrow> Vector2 list \<Rightarrow> bool" where
  "goodRegion layout r =
     ((\<forall>p \<in> set r. isFloor layout p \<and> 0 \<le> snd p \<and> snd p < rows layout) \<and>
      (\<forall>p \<in> set r. \<forall>q \<in> set r. joined layout p q))"

definition goodRegions :: "Layout \<Rightarrow> (int \<Rightarrow> int \<Rightarrow> bool) \<times> Vector2 list list \<Rightarrow> bool" where
  "goodRegions layout vr = (\<forall>r \<in> set (snd vr). goodRegion layout r \<and> 10 < length r)"

definition inRows :: "Layout \<Rightarrow> Vector2 list \<Rightarrow> bool" where
  "inRows l r = (r \<noteq> [] \<and> (\<forall>p \<in> set r. 0 \<le> snd p \<and> snd p < rows l))"

text \<open>A grid of two halls of 15 floor cells each, with a wall between them.\<close>

definition twoHalls :: Layout where
  "twoHalls = gridOf [[FLOOR, FLOOR, FLOOR, FLOOR, FLOOR], [FLOOR, FLOOR, FLOOR, FLOOR, FLOOR],
     [FLOOR, FLOOR, FLOOR, FLOOR, FLOOR], [WALL, WALL, WALL, WALL, WALL],
     [FLOOR, FLOOR, FLOOR, FLOOR, FLOOR], [FLOOR, FLOOR, FLOOR, FLOOR, FLOOR],
     [FLOOR, FLOOR, FLOOR, FLOOR, FLOOR]]"

text \<open>The errors JavaScript itself throws, as opposed to the two of the specification's taxonomy.\<close>

definition jsError :: "error \<Rightarrow> bool" where
  "jsError e = (e = TypeError \<or> e = RangeError)"

text \<open>The defining equations, collected for evaluating the generator on concrete inputs.\<close>

lemmas maze_eval =
  jsmod_def fl_def bitlen.simps rng_step_def rng_value_def rng_index_def MazeGenerator_new_def
  pick_def manhattan_def emptyLayout_def pushRow_def setCell_def getCell_def rowLength_def
  putTile_def fillRow_def wallLayout_def orElse_def orDefault_def offsets_def countNeighbor_def
  caWallCount_def caCell_def caRow_def applyCellularAutomataRules_def jsonCopy_def
  smoothNeighbor_def smoothWallCount_def smoothCell_def smoothRow_def copyCell_def copyRow_def
  smoothCaves_def directions_def markVisited_def unvisitedNeighbor_def stepFrom_def
  rbNeighbors_def rbLoop.simps addConnection_def scanTopBottom_def scanLeftRight_def
  connectRoomToMaze_def carveRow_def carveRoom_def roomSize_def roomOrigin_def addRoom_def
  addRandomRooms_def generateRecursiveBacktracking_def oddsBelow_def treeDirections_def
  binaryTreeCell_def binaryTreeRow_def generateBinaryTree_def floodLoop.simps floodFill_def
  walk_def carvePath_def carveStep_def carveConnection_def closerPair_def bestConnection_def
  connectRegions_def keepRegion_def scanCell_def scanRow_def findRegions_def connectTo_def
  ensureConnectivity_def caInitCell_def caInitRow_def caIteration_def
  generateCellularAutomata_def combinedNoise_def perlinCell_def perlinRow_def smoothRound_def
  generatePerlinCaves_def wallTopBottom_def wallLeftRight_def ensureBoundaryWalls_def
  floorsOfRow_def findFloorTiles_def drawTile_def tooClose_def spawnAttempts.simps
  spawnSlot_def relaxedSpawns.simps generateSpawnPoints_def keyAttempts.simps keySlot_def
  generateKeySpawns_def isFloorAt_def adjacentFloors_def isDoorCandidate_def
  candidatesOfRow_def doorCandidates_def fallbackCell_def fallbackRow_def fallbackDoors_def
  spliceStart_def spliceOne_def selectDoors.simps potentialDoors_def
  generateDoorPositions_def minDistance_def greaterDist_def exitStep_def
  generateExitPosition_def placeDoor_def placeSpecialTiles_def carve_def finishMaze_def
  carveAndWall_def generateMaze_def plainOptions_def flatNoise_def mazeOf_def thrownBy_def
  observable_def rowTiles_def dropId_def outcome_def columnTile_def lastColumn_def floodFrom_def
  floodAndFloors_def layoutBefore_def isFloor_def isWall_def neighbors4_def floorNeighbors_def
  hasFloorNeighbor_def Let_def upto.simps

subsection \<open>Facts about the random source\<close>

lemma rng_index_floor: "rng_index state n = \<lfloor>rng_value state * of_int n\<rfloor>"
proof -
  have "rng_value state * of_int n = (of_int (state * n) :: rat) / of_int 233280"
    by (simp add: rng_value_def)
  then show ?thesis
    unfolding rng_index_def by (simp only: floor_divide_of_int_eq)
qed

lemma jsmod_range_nonneg: "0 \<le> a \<Longrightarrow> 0 < m \<Longrightarrow> 0 \<le> jsmod a m \<and> jsmod a m < m"
  by (simp add: jsmod_def)

lemma fl_nonneg: "0 \<le> v \<Longrightarrow> 0 \<le> fl v"
proof -
  assume v: "0 \<le> v"
  have q: "0 \<le> v div 2 ^ e" for e :: nat
    using v by (simp add: pos_imp_zdiv_nonneg_iff)
  then have "0 \<le> (v div 2 ^ e + 1) * 2 ^ e" "0 \<le> (v div 2 ^ e) * 2 ^ e" for e :: nat
    by (simp_all add: add_nonneg_nonneg)
  with v show ?thesis
    by (simp add: fl_def Let_def sgn_if)
qed

lemma rng_step_range: "0 \<le> state \<Longrightarrow> 0 \<le> rng_step state \<and> rng_step state < 233280"
  unfolding rng_step_def
  by (intro jsmod_range_nonneg fl_nonneg) (simp_all add: fl_nonneg)

lemma rng_iter_range: "0 \<le> seed \<Longrightarrow> 0 \<le> (rng_step ^^ Suc n) seed \<and> (rng_step ^^ Suc n) seed < 233280"
proof (induction n)
  case 0
  then show ?case using rng_step_range [of seed] by simp
next
  case (Suc n)
  then show ?case using rng_step_range [of "(rng_step ^^ Suc n) seed"] by simp
qed

lemma createSeededRandom_range:
  "0 \<le> seed \<Longrightarrow> 0 \<le> createSeededRandom seed n \<and> createSeededRandom seed n < 1"
  using rng_iter_range [of seed n] by (simp add: createSeededRandom_def rng_value_def)

lemma rng_step_bounds: "- 233280 < rng_step state \<and> rng_step state < 233280"
proof -
  have a: "0 \<le> a mod 233280 \<and> a mod 233280 < 233280" for a :: int
    by simp
  define v where "v = fl (fl (state * 9301) + 49297)"
  have "- 233280 < jsmod v 233280 \<and> jsmod v 233280 < 233280"
    using a [of v] a [of "- v"] unfolding jsmod_def by (cases "0 \<le> v") auto
  then show ?thesis
    by (simp add: rng_step_def v_def)
qed

subsection \<open>Which errors a call can end with\<close>

text \<open>
  Every function of the generator throws only what JavaScript throws on its array
  accesses: by induction along the call structure, loops by \<open>forE_jsError\<close>.
\<close>

lemma jsError_simps [simp]: "jsError TypeError" "jsError RangeError"
  "\<not> jsError ConfigurationError" "\<not> jsError InfeasibleLevelError"
  by (simp_all add: jsError_def)

lemma forE_jsError:
  assumes "forE body xs s = Inl e" and "\<And>a s e'. body a s = Inl e' \<Longrightarrow> jsError e'"
  shows "jsError e"
  using assms(1)
proof (induction xs arbitrary: s)
  case Nil
  then show ?case by simp
next
  case (Cons a xs)
  then show ?case by (auto split: sum.splits dest: assms(2))
qed

lemma setCell_jsError: "setCell layout x y v = Inl e \<Longrightarrow> jsError e"
  by (auto simp: setCell_def split: if_splits)

lemma getCell_jsError: "getCell layout x y = Inl e \<Longrightarrow> jsError e"
  by (auto simp: getCell_def split: if_splits)

lemma rowLength_jsError: "rowLength layout y = Inl e \<Longrightarrow> jsError e"
  by (auto simp: rowLength_def split: if_splits)

lemmas cell_jsError = setCell_jsError getCell_jsError rowLength_jsError

lemma putTile_jsError: "putTile t y x layout = Inl e \<Longrightarrow> jsError e"
  by (auto simp: putTile_def dest: cell_jsError)

lemma fillRow_jsError: "fillRow width t y layout = Inl e \<Longrightarrow> jsError e"
  unfolding fillRow_def by (erule forE_jsError) (rule putTile_jsError)

lemma wallLayout_jsError: "wallLayout width height = Inl e \<Longrightarrow> jsError e"
  unfolding wallLayout_def by (erule forE_jsError) (rule fillRow_jsError)

lemma countNeighbor_jsError: "countNeighbor layout width height x y d wallCount = Inl e \<Longrightarrow> jsError e"
  by (auto simp: countNeighbor_def split: if_splits sum.splits dest: cell_jsError)

lemma caWallCount_jsError: "caWallCount layout width height x y = Inl e \<Longrightarrow> jsError e"
  unfolding caWallCount_def by (erule forE_jsError) (rule countNeighbor_jsError)

lemma caCell_jsError: "caCell layout width height y x newLayout = Inl e \<Longrightarrow> jsError e"
  by (auto simp: caCell_def split: sum.splits dest: cell_jsError caWallCount_jsError)

lemma caRow_jsError: "caRow layout width height y newLayout = Inl e \<Longrightarrow> jsError e"
  unfolding caRow_def by (erule forE_jsError) (rule caCell_jsError)

lemma applyCellularAutomataRules_jsError:
  "applyCellularAutomataRules layout width height = Inl e \<Longrightarrow> jsError e"
  unfolding applyCellularAutomataRules_def by (erule forE_jsError) (rule caRow_jsError)

lemma smoothNeighbor_jsError: "smoothNeighbor layout x y d wallCount = Inl e \<Longrightarrow> jsError e"
  by (auto simp: smoothNeighbor_def split: sum.splits dest: cell_jsError)

lemma smoothWallCount_jsError: "smoothWallCount layout x y = Inl e \<Longrightarrow> jsError e"
  unfolding smoothWallCount_def by (erule forE_jsError) (rule smoothNeighbor_jsError)

lemma smoothCell_jsError: "smoothCell layout y x newLayout = Inl e \<Longrightarrow> jsError e"
  by (auto simp: smoothCell_def split: sum.splits dest: cell_jsError smoothWallCount_jsError)

lemma smoothRow_jsError: "smoothRow layout width y newLayout = Inl e \<Longrightarrow> jsError e"
  unfolding smoothRow_def by (erule forE_jsError) (rule smoothCell_jsError)

lemma copyCell_jsError: "copyCell newLayout y x layout = Inl e \<Longrightarrow> jsError e"
  by (auto simp: copyCell_def split: sum.splits dest: cell_jsError)

lemma copyRow_jsError: "copyRow newLayout width y layout = Inl e \<Longrightarrow> jsError e"
  unfolding copyRow_def by (erule forE_jsError) (rule copyCell_jsError)

lemma smoothCaves_jsError: "smoothCaves layout = Inl e \<Longrightarrow> jsError e"
  by (auto simp: smoothCaves_def split: sum.splits
      dest: cell_jsError elim: forE_jsError [OF _ smoothRow_jsError] forE_jsError [OF _ copyRow_jsError])

lemma rbLoop_jsError: "rbLoop width height layout visited stack st = Inl e \<Longrightarrow> jsError e"
proof (induction width height layout visited stack st rule: rbLoop.induct)
  case (1 width height layout visited stack st)
  from "1.prems" show ?case
    unfolding rbLoop.simps [of width height layout visited stack st]
    by (auto split: list.splits if_splits option.splits sum.splits
        dest: cell_jsError intro: "1.IH")
qed

lemma addConnection_jsError: "addConnection layout guard x y c connections = Inl e \<Longrightarrow> jsError e"
  by (auto simp: addConnection_def split: if_splits sum.splits dest: cell_jsError)

lemma scanTopBottom_jsError: "scanTopBottom layout roomY roomHeight x connections = Inl e \<Longrightarrow> jsError e"
  by (auto simp: scanTopBottom_def split: sum.splits dest: addConnection_jsError)

lemma scanLeftRight_jsError: "scanLeftRight layout roomX roomWidth y connections = Inl e \<Longrightarrow> jsError e"
  by (auto simp: scanLeftRight_def split: sum.splits dest: addConnection_jsError cell_jsError)

lemma connectRoomToMaze_jsError:
  "connectRoomToMaze layout roomX roomY roomWidth roomHeight st = Inl e \<Longrightarrow> jsError e"
  by (auto simp: connectRoomToMaze_def split: sum.splits if_splits option.splits
      dest: cell_jsError elim: forE_jsError [OF _ scanTopBottom_jsError] forE_jsError [OF _ scanLeftRight_jsError])

lemma carveRow_jsError: "carveRow roomX roomWidth y layout = Inl e \<Longrightarrow> jsError e"
  unfolding carveRow_def by (erule forE_jsError) (rule putTile_jsError)

lemma carveRoom_jsError: "carveRoom layout roomX roomY roomWidth roomHeight st = Inl e \<Longrightarrow> jsError e"
  by (auto simp: carveRoom_def split: sum.splits
      dest: connectRoomToMaze_jsError elim: forE_jsError [OF _ carveRow_jsError])

lemma addRoom_jsError: "addRoom width height minSize maxSize i ls = Inl e \<Longrightarrow> jsError e"
  by (auto simp: addRoom_def Let_def dest: carveRoom_jsError)

lemma addRandomRooms_jsError: "addRandomRooms layout minSize maxSize count st = Inl e \<Longrightarrow> jsError e"
  by (auto simp: addRandomRooms_def split: sum.splits
      dest: cell_jsError elim: forE_jsError [OF _ addRoom_jsError])

lemma generateRecursiveBacktracking_jsError:
  "generateRecursiveBacktracking options st = Inl e \<Longrightarrow> jsError e"
  by (auto simp: generateRecursiveBacktracking_def split: sum.splits if_splits
      dest: cell_jsError wallLayout_jsError rbLoop_jsError addRandomRooms_jsError)

lemma binaryTreeCell_jsError: "binaryTreeCell y x ls = Inl e \<Longrightarrow> jsError e"
  by (auto simp: binaryTreeCell_def split: sum.splits if_splits option.splits dest: cell_jsError)

lemma binaryTreeRow_jsError: "binaryTreeRow width y ls = Inl e \<Longrightarrow> jsError e"
  unfolding binaryTreeRow_def by (erule forE_jsError) (rule binaryTreeCell_jsError)

lemma generateBinaryTree_jsError: "generateBinaryTree options st = Inl e \<Longrightarrow> jsError e"
  by (auto simp: generateBinaryTree_def split: sum.splits
      dest: wallLayout_jsError elim: forE_jsError [OF _ binaryTreeRow_jsError])

lemma floodFill_jsError: "floodFill layout visited startX startY = Inl e \<Longrightarrow> jsError e"
  by (auto simp: floodFill_def split: sum.splits dest: cell_jsError)

lemma carveStep_jsError: "carveStep p layout = Inl e \<Longrightarrow> jsError e"
  by (auto simp: carveStep_def dest: cell_jsError)

lemma carveConnection_jsError: "carveConnection layout start end = Inl e \<Longrightarrow> jsError e"
  unfolding carveConnection_def by (erule forE_jsError) (rule carveStep_jsError)

lemma connectRegions_jsError: "connectRegions layout region1 region2 = Inl e \<Longrightarrow> jsError e"
  by (auto simp: connectRegions_def split: option.splits dest: carveConnection_jsError)

lemma scanCell_jsError: "scanCell layout y x vr = Inl e \<Longrightarrow> jsError e"
  by (auto simp: scanCell_def split: if_splits sum.splits dest: floodFill_jsError)

lemma scanRow_jsError: "scanRow layout width y vr = Inl e \<Longrightarrow> jsError e"
  unfolding scanRow_def by (erule forE_jsError) (rule scanCell_jsError)

lemma findRegions_jsError: "findRegions layout width height = Inl e \<Longrightarrow> jsError e"
  unfolding findRegions_def by (erule forE_jsError) (rule scanRow_jsError)

lemma connectTo_jsError: "connectTo region1 region layout = Inl e \<Longrightarrow> jsError e"
  by (auto simp: connectTo_def dest: connectRegions_jsError)

lemma ensureConnectivity_jsError: "ensureConnectivity layout = Inl e \<Longrightarrow> jsError e"
  by (auto simp: ensureConnectivity_def split: sum.splits if_splits
      dest: cell_jsError findRegions_jsError elim: forE_jsError [OF _ connectTo_jsError])

lemma caInitCell_jsError: "caInitCell dens y x ls = Inl e \<Longrightarrow> jsError e"
  by (auto simp: caInitCell_def split: sum.splits dest: cell_jsError)

lemma caInitRow_jsError: "caInitRow dens width y ls = Inl e \<Longrightarrow> jsError e"
  unfolding caInitRow_def by (erule forE_jsError) (rule caInitCell_jsError)

lemma caIteration_jsError: "caIteration width height i layout = Inl e \<Longrightarrow> jsError e"
  by (auto simp: caIteration_def dest: applyCellularAutomataRules_jsError)

lemma generateCellularAutomata_jsError: "generateCellularAutomata options st = Inl e \<Longrightarrow> jsError e"
  by (auto simp: generateCellularAutomata_def split: sum.splits
      dest: ensureConnectivity_jsError
      elim: forE_jsError [OF _ caInitRow_jsError] forE_jsError [OF _ caIteration_jsError])

lemma perlinCell_jsError: "perlinCell noise sd dens y x layout = Inl e \<Longrightarrow> jsError e"
  by (auto simp: perlinCell_def dest: cell_jsError)

lemma perlinRow_jsError: "perlinRow noise sd dens width y layout = Inl e \<Longrightarrow> jsError e"
  unfolding perlinRow_def by (erule forE_jsError) (rule perlinCell_jsError)

lemma smoothRound_jsError: "smoothRound i layout = Inl e \<Longrightarrow> jsError e"
  by (auto simp: smoothRound_def dest: smoothCaves_jsError)

lemma generatePerlinCaves_jsError: "generatePerlinCaves noise sd options = Inl e \<Longrightarrow> jsError e"
  by (auto simp: generatePerlinCaves_def split: sum.splits
      elim: forE_jsError [OF _ perlinRow_jsError] forE_jsError [OF _ smoothRound_jsError])

lemma wallTopBottom_jsError: "wallTopBottom height x layout = Inl e \<Longrightarrow> jsError e"
  by (auto simp: wallTopBottom_def split: sum.splits dest: cell_jsError)

lemma wallLeftRight_jsError: "wallLeftRight width y layout = Inl e \<Longrightarrow> jsError e"
  by (auto simp: wallLeftRight_def split: sum.splits dest: cell_jsError)

lemma ensureBoundaryWalls_jsError: "ensureBoundaryWalls layout = Inl e \<Longrightarrow> jsError e"
  by (auto simp: ensureBoundaryWalls_def split: sum.splits
      dest: cell_jsError
      elim: forE_jsError [OF _ wallTopBottom_jsError] forE_jsError [OF _ wallLeftRight_jsError])

lemma carve_jsError: "carve noise g options = Inl e \<Longrightarrow> jsError e"
  by (auto simp: carve_def split: MazeAlgorithm.splits sum.splits
      dest: generateRecursiveBacktracking_jsError generateCellularAutomata_jsError
        generateBinaryTree_jsError generatePerlinCaves_jsError)

lemma carveAndWall_jsError: "carveAndWall noise g options = Inl e \<Longrightarrow> jsError e"
  by (auto simp: carveAndWall_def split: sum.splits dest: carve_jsError ensureBoundaryWalls_jsError)

lemma spawnAttempts_jsError: "spawnAttempts attempts floorTiles spawns used st = Inl e \<Longrightarrow> jsError e"
proof (induction attempts floorTiles spawns used st rule: spawnAttempts.induct)
  case (1 attempts floorTiles spawns used st)
  from "1.prems" show ?case
    unfolding spawnAttempts.simps [of attempts floorTiles spawns used st]
    by (auto split: if_splits option.splits intro: "1.IH")
qed

lemma spawnSlot_jsError: "spawnSlot floorTiles count i sus = Inl e \<Longrightarrow> jsError e"
  by (auto simp: spawnSlot_def split: if_splits dest: spawnAttempts_jsError)

lemma relaxedSpawns_result:
  assumes "relaxedSpawns floorTiles count spawns used st = Some r"
  shows "\<forall>e. r = Inl e \<longrightarrow> jsError e"
  using assms
proof (rule relaxedSpawns.raw_induct [rotated], goal_cases)
  case (1 relaxedSpawns' floorTiles count spawns used st r)
  from "1"(2) show ?case
    by (auto split: if_splits option.splits dest: "1"(1))
qed

lemma relaxedSpawns_jsError:
  "relaxedSpawns floorTiles count spawns used st = Some (Inl e) \<Longrightarrow> jsError e"
  using relaxedSpawns_result by blast

lemma generateSpawnPoints_jsError: "generateSpawnPoints floorTiles count st = Some (Inl e) \<Longrightarrow> jsError e"
  by (auto simp: generateSpawnPoints_def split: sum.splits
      dest: relaxedSpawns_jsError elim: forE_jsError [OF _ spawnSlot_jsError])

lemma keyAttempts_jsError: "keyAttempts attempts floorTiles count keys used st = Inl e \<Longrightarrow> jsError e"
proof (induction attempts floorTiles count keys used st rule: keyAttempts.induct)
  case (1 attempts floorTiles count keys used st)
  from "1.prems" show ?case
    unfolding keyAttempts.simps [of attempts floorTiles count keys used st]
    by (auto split: if_splits option.splits intro: "1.IH")
qed

lemma keySlot_jsError: "keySlot floorTiles count i kus = Inl e \<Longrightarrow> jsError e"
  by (auto simp: keySlot_def split: if_splits dest: keyAttempts_jsError)

lemma generateKeySpawns_jsError: "generateKeySpawns floorTiles spawnPoints count st = Inl e \<Longrightarrow> jsError e"
  by (auto simp: generateKeySpawns_def split: sum.splits elim: forE_jsError [OF _ keySlot_jsError])

lemma selectDoors_jsError: "selectDoors i count doors pd st = Inl e \<Longrightarrow> jsError e"
proof (induction i count doors pd st rule: selectDoors.induct)
  case (1 i count doors pd st)
  from "1.prems" show ?case
    unfolding selectDoors.simps [of i count doors pd st]
    by (auto split: if_splits option.splits intro: "1.IH")
qed

lemma generateDoorPositions_jsError: "generateDoorPositions layout floorTiles count st = Inl e \<Longrightarrow> jsError e"
  by (auto simp: generateDoorPositions_def dest: selectDoors_jsError)

lemma placeDoor_jsError: "placeDoor door layout = Inl e \<Longrightarrow> jsError e"
  by (auto simp: placeDoor_def dest: cell_jsError)

lemma placeSpecialTiles_jsError:
  "placeSpecialTiles layout spawnPoints keySpawns doorPositions exitPosition = Inl e \<Longrightarrow> jsError e"
  unfolding placeSpecialTiles_def by (erule forE_jsError) (rule placeDoor_jsError)

lemma finishMaze_jsError: "finishMaze g options now layout floorTiles ss = Inl e \<Longrightarrow> jsError e"
  by (auto simp: finishMaze_def split: sum.splits option.splits
      dest: generateKeySpawns_jsError generateDoorPositions_jsError placeSpecialTiles_jsError)

lemma generateMaze_jsError: "generateMaze noise g options now = Some (Inl e) \<Longrightarrow> jsError e"
  by (auto simp: generateMaze_def split: sum.splits option.splits
      dest: carveAndWall_jsError generateSpawnPoints_jsError finishMaze_jsError)

subsection \<open>What the door selection returns\<close>

lemma spliceOne_Some:
  assumes "spliceOne xs i = Some dr"
  shows "\<exists>k < length xs. fst dr = xs ! k \<and> snd dr = take k xs @ drop (Suc k) xs"
proof -
  define k where "k = nat (spliceStart (int (length xs)) i)"
  have nonneg: "0 \<le> spliceStart (int (length xs)) i"
    by (simp add: spliceStart_def)
  from assms have lt: "spliceStart (int (length xs)) i < int (length xs)"
    and dr: "dr = (xs ! k, take k xs @ drop (Suc k) xs)"
    by (auto simp: spliceOne_def k_def split: if_splits)
  from lt nonneg have "k < length xs" by (simp add: k_def)
  with dr show ?thesis by auto
qed

lemma spliceOne_set:
  assumes "spliceOne xs i = Some dr"
  shows "fst dr \<in> set xs" and "set (snd dr) \<subseteq> set xs"
    and "distinct xs \<Longrightarrow> distinct (snd dr) \<and> fst dr \<notin> set (snd dr)"
proof -
  from spliceOne_Some [OF assms] obtain k where k: "k < length xs"
    and f: "fst dr = xs ! k" and r: "snd dr = take k xs @ drop (Suc k) xs" by blast
  show "fst dr \<in> set xs" using k f by simp
  show "set (snd dr) \<subseteq> set xs"
    unfolding r by (auto dest: in_set_takeD in_set_dropD)
  assume d: "distinct xs"
  have xs: "xs = take k xs @ xs ! k # drop (Suc k) xs"
    using k by (rule id_take_nth_drop)
  have "distinct (take k xs @ xs ! k # drop (Suc k) xs)"
    using d xs by simp
  then show "distinct (snd dr) \<and> fst dr \<notin> set (snd dr)"
    unfolding r f by auto
qed

lemma selectDoors_props:
  "selectDoors i count doors pd st = Inr ds \<Longrightarrow>
     set (fst ds) \<subseteq> set doors \<union> set pd \<and>
     (int (length doors) \<le> count \<longrightarrow> int (length (fst ds)) \<le> count) \<and>
     (distinct (doors @ pd) \<longrightarrow> distinct (fst ds))"
proof (induction i count doors pd st rule: selectDoors.induct)
  case (1 i count doors pd st)
  show ?case
  proof (cases "i < count \<and> int (length doors) < count \<and> length pd > 0")
    case False
    with "1.prems" have "ds = (doors, st)"
      unfolding selectDoors.simps [of i count doors pd st] by (simp split: if_splits)
    then show ?thesis by simp
  next
    case True
    from "1.prems" True obtain dr where
      dr: "spliceOne pd (rng_index (rng_step st) (int (length pd))) = Some dr"
      and rec: "selectDoors (i + 1) count (doors @ [fst dr]) (snd dr) (rng_step st) = Inr ds"
      unfolding selectDoors.simps [of i count doors pd st]
      by (auto split: option.splits)
    note ih = "1.IH" [OF True dr rec]
    note sp = spliceOne_set [OF dr]
    from ih sp True show ?thesis
      by auto
  qed
qed

lemma candidatesOfRow_set:
  "p \<in> set (candidatesOfRow layout y) \<Longrightarrow> snd p = y \<and> isDoorCandidate layout y (fst p)"
  by (auto simp: candidatesOfRow_def)

lemma distinct_candidatesOfRow: "distinct (candidatesOfRow layout y)"
  by (simp add: candidatesOfRow_def distinct_map inj_on_def)

lemma distinct_concat_rows:
  assumes "distinct ys" and "\<And>y. distinct (f y)" and "\<And>y p. p \<in> set (f y) \<Longrightarrow> snd p = y"
  shows "distinct (concat (map f ys))"
  using assms(1)
proof (induction ys)
  case Nil
  then show ?case by simp
next
  case (Cons y ys)
  have "set (f y) \<inter> set (concat (map f ys)) = {}"
  proof (rule ccontr)
    assume "set (f y) \<inter> set (concat (map f ys)) \<noteq> {}"
    then obtain p y' where "p \<in> set (f y)" "y' \<in> set ys" "p \<in> set (f y')" by auto
    then have "y = y'" using assms(3) by blast
    with \<open>y' \<in> set ys\<close> Cons.prems show False by simp
  qed
  with Cons assms(2) show ?case by simp
qed

lemma distinct_doorCandidates: "distinct (doorCandidates layout)"
  unfolding doorCandidates_def
  by (rule distinct_concat_rows) (auto simp: distinct_candidatesOfRow dest: candidatesOfRow_set)

lemma doorCandidates_set:
  "p \<in> set (doorCandidates layout) \<Longrightarrow> isDoorCandidate layout (snd p) (fst p)"
  by (auto simp: doorCandidates_def dest: candidatesOfRow_set)

lemma isDoorCandidate_wall_floor:
  "isDoorCandidate layout (snd p) (fst p) \<Longrightarrow> isWall layout p \<and> hasFloorNeighbor layout p"
proof -
  assume c: "isDoorCandidate layout (snd p) (fst p)"
  then have w: "isWall layout p" by (simp add: isDoorCandidate_def isWall_def)
  from c have "adjacentFloors layout (fst p) (snd p) \<noteq> []"
    by (auto simp: isDoorCandidate_def)
  then obtain q where q: "q \<in> set (adjacentFloors layout (fst p) (snd p))"
    by (cases "adjacentFloors layout (fst p) (snd p)") auto
  then have "q \<in> set [(fst p - 1, snd p), (fst p + 1, snd p), (fst p, snd p - 1), (fst p, snd p + 1)]
             \<and> isFloorAt layout q"
    unfolding adjacentFloors_def set_filter by blast
  then have "q \<in> set (neighbors4 p)" "isFloor layout q"
    by (simp_all add: neighbors4_def isFloorAt_def isFloor_def)
  then have "q \<in> set (floorNeighbors p layout)"
    by (simp add: floorNeighbors_def)
  then have "hasFloorNeighbor layout p"
    by (auto simp: hasFloorNeighbor_def)
  with w show ?thesis by simp
qed

lemma fallbackCell_set:
  "set (fst (fallbackCell layout y pu x)) \<subseteq> set (fst pu) \<union> {p. isWall layout p}"
  by (auto simp: fallbackCell_def isWall_def)

lemma fallbackRow_set:
  "set (fst (foldl (fallbackCell layout y) pu xs)) \<subseteq> set (fst pu) \<union> {p. isWall layout p}"
proof (induction xs arbitrary: pu)
  case Nil
  then show ?case by simp
next
  case (Cons x xs)
  from Cons [of "fallbackCell layout y pu x"] fallbackCell_set [of layout y pu x]
  show ?case by auto
qed

lemma fallbackRows_set:
  "set (fst (foldl (fallbackRow layout) pu ys)) \<subseteq> set (fst pu) \<union> {p. isWall layout p}"
proof (induction ys arbitrary: pu)
  case Nil
  then show ?case by simp
next
  case (Cons y ys)
  from Cons [of "fallbackRow layout pu y"] fallbackRow_set [of layout y pu]
  show ?case by (auto simp: fallbackRow_def)
qed

lemma potentialDoors_wall: "p \<in> set (potentialDoors layout count) \<Longrightarrow> isWall layout p"
  using fallbackRows_set [of layout "(doorCandidates layout, {})" "[2..rows layout - 3]"]
  by (auto simp: potentialDoors_def fallbackDoors_def split: if_splits
      dest!: doorCandidates_set isDoorCandidate_wall_floor)

lemma generateDoorPositions_props:
  assumes "generateDoorPositions layout floorTiles 3 st = Inr ds"
  shows "length (fst ds) \<le> 3" and "list_all (isWall layout) (fst ds)"
    and "3 \<le> length (doorCandidates layout) \<Longrightarrow>
           distinct (fst ds) \<and> list_all (hasFloorNeighbor layout) (fst ds)"
proof -
  from assms have sel: "selectDoors 0 3 [] (potentialDoors layout 3) st = Inr ds"
    by (simp add: generateDoorPositions_def)
  note props = selectDoors_props [OF sel]
  from props show "length (fst ds) \<le> 3" by simp
  from props show "list_all (isWall layout) (fst ds)"
    by (auto simp: list_all_iff dest: potentialDoors_wall)
  assume "3 \<le> length (doorCandidates layout)"
  then have pd: "potentialDoors layout 3 = doorCandidates layout"
    by (simp add: potentialDoors_def)
  with props distinct_doorCandidates [of layout]
  show "distinct (fst ds) \<and> list_all (hasFloorNeighbor layout) (fst ds)"
    by (auto simp: list_all_iff dest!: doorCandidates_set isDoorCandidate_wall_floor)
qed

lemma generateMaze_returns:
  assumes "generateMaze noise g options now = Some (Inr mg)"
  shows "\<exists>ls st ds. carveAndWall noise g options = Inr ls \<and>
           generateDoorPositions (fst ls) (findFloorTiles (fst ls)) 3 st = Inr ds \<and>
           m_doorPositions (fst mg) = fst ds"
  using assms
  by (fastforce simp: generateMaze_def finishMaze_def split: sum.splits option.splits)

subsection \<open>The cellular rule in closed form\<close>

text \<open>
  A \<^verbatim>\<open>for\<close> loop over \<open>i, ..., j\<close> whose body keeps an invariant and throws nothing ends
  without an error, with the invariant at \<open>j + 1\<close> (at \<open>i\<close> when the range is empty).
\<close>

lemma forE_upto:
  assumes step: "\<And>k s. i0 \<le> k \<Longrightarrow> k \<le> j \<Longrightarrow> I k s \<Longrightarrow> \<exists>s'. body k s = Inr s' \<and> I (k + 1) s'"
  shows "i0 \<le> i \<Longrightarrow> I i s \<Longrightarrow> \<exists>s'. forE body [i..j] s = Inr s' \<and> I (max i (j + 1)) s'"
proof (induction "nat (j + 1 - i)" arbitrary: i s)
  case 0
  then have "j < i" by simp
  then have "[i..j] = []" "max i (j + 1) = i" by simp_all
  with "0.prems" show ?case by simp
next
  case (Suc n)
  then have ij: "i \<le> j" by linarith
  from step [OF Suc.prems(1) ij Suc.prems(2)] obtain s1
    where s1: "body i s = Inr s1" "I (i + 1) s1" by blast
  have n: "n = nat (j + 1 - (i + 1))" using Suc.hyps(2) by linarith
  from Suc.hyps(1) [OF n _ s1(2)] Suc.prems(1) ij obtain s'
    where "forE body [i + 1..j] s1 = Inr s'" "I (j + 1) s'" by auto
  then show ?case using ij s1(1) by (simp add: upto_rec1 max_def)
qed

lemma forE_countNeighbor:
  assumes "height \<le> rows layout"
  shows "forE (countNeighbor layout width height x y) ds n =
         Inr (n + int (length (filter (wallOrOutside layout width height x y) ds)))"
  using assms by (induction ds arbitrary: n) (auto simp: countNeighbor_def wallOrOutside_def getCell_def)

lemma caWallCount_eq:
  "height \<le> rows layout \<Longrightarrow> caWallCount layout width height x y = Inr (wallsAround layout width height x y)"
  by (simp add: caWallCount_def wallsAround_def forE_countNeighbor)

lemma caCell_eq:
  "height \<le> rows layout \<Longrightarrow> 0 \<le> y \<Longrightarrow> y < rows nl \<Longrightarrow>
   caCell layout width height y x nl =
     Inr \<lparr> rows = rows nl, rowlen = (rowlen nl)(y := max (rowlen nl y) (x + 1)),
           cell = (cell nl)(y := (cell nl y)(x := Some (majorityTile (wallsAround layout width height x y)))) \<rparr>"
  by (simp add: caCell_def caWallCount_eq setCell_def majorityTile_def)

lemma caRow_inv:
  assumes "height \<le> rows layout" "0 \<le> y"
  shows "\<exists>s. caRow layout width height y nl = Inr s \<and> caRowInv layout width height y nl (max 0 width) s"
proof -
  have "\<exists>s. forE (caCell layout width height y) [0..width - 1] (pushRow nl y) = Inr s \<and>
            caRowInv layout width height y nl (max 0 (width - 1 + 1)) s"
  proof (rule forE_upto [where ?i0.0 = 0])
    fix k s assume "0 \<le> k" "k \<le> width - 1" "caRowInv layout width height y nl k s"
    then show "\<exists>s'. caCell layout width height y k s = Inr s' \<and> caRowInv layout width height y nl (k + 1) s'"
      using assms by (auto simp: caCell_eq caRowInv_def)
  next
    show "caRowInv layout width height y nl 0 (pushRow nl y)"
      by (auto simp: caRowInv_def pushRow_def)
  qed simp
  then show ?thesis by (simp add: caRow_def)
qed

lemma applyCellularAutomataRules_inv:
  assumes "height \<le> rows layout"
  shows "\<exists>s. applyCellularAutomataRules layout width height = Inr s \<and>
             caInv layout width height (max 0 height) s"
proof -
  have "\<exists>s. forE (caRow layout width height) [0..height - 1] emptyLayout = Inr s \<and>
            caInv layout width height (max 0 (height - 1 + 1)) s"
  proof (rule forE_upto [where ?i0.0 = 0])
    fix k s assume k: "0 \<le> k" "k \<le> height - 1" and inv: "caInv layout width height k s"
    from caRow_inv [OF assms k(1), of width s] obtain s'
      where s': "caRow layout width height k s = Inr s'"
        "caRowInv layout width height k s (max 0 width) s'" by blast
    have "cell s' y x = (if 0 \<le> y \<and> y < k + 1 \<and> 0 \<le> x \<and> x < width
                         then Some (majorityTile (wallsAround layout width height x y)) else None)" for y x
    proof (cases "y = k")
      case True
      then show ?thesis using s'(2) k by (auto simp: caRowInv_def)
    next
      case False
      then have "cell s' y x = cell s y x" using s'(2) by (simp add: caRowInv_def)
      then show ?thesis using inv False by (simp add: caInv_def)
    qed
    moreover have "rows s' = k + 1" using inv s'(2) by (simp add: caInv_def caRowInv_def)
    ultimately have "caInv layout width height (k + 1) s'" by (simp add: caInv_def)
    with s'(1) show "\<exists>s'. caRow layout width height k s = Inr s' \<and> caInv layout width height (k + 1) s'"
      by blast
  next
    show "caInv layout width height 0 emptyLayout"
      by (simp add: caInv_def emptyLayout_def)
  qed simp
  then show ?thesis by (simp add: applyCellularAutomataRules_def)
qed

lemma applyCellularAutomataRules_cells:
  assumes "height \<le> rows layout"
  shows "\<exists>l'. applyCellularAutomataRules layout width height = Inr l' \<and> rows l' = max 0 height \<and>
          (\<forall>x y. 0 \<le> x \<and> x < width \<and> 0 \<le> y \<and> y < height \<longrightarrow>
                 cell l' y x = Some (majorityTile (wallsAround layout width height x y)))"
  using applyCellularAutomataRules_inv [OF assms, of width] by (auto simp: caInv_def)

lemma forE_smoothNeighbor:
  assumes "1 \<le> y" "y \<le> rows layout - 2"
  shows "set ds \<subseteq> set offsets \<Longrightarrow> forE (smoothNeighbor layout x y) ds n =
         Inr (n + int (length (filter (\<lambda>d. cell layout (y + snd d) (x + fst d) = Some WALL) ds)))"
proof (induction ds arbitrary: n)
  case Nil
  then show ?case by simp
next
  case (Cons d ds)
  then have "d \<in> set offsets" by simp
  then have "- 1 \<le> snd d \<and> snd d \<le> 1" by (auto simp: offsets_def)
  then have "getCell layout (x + fst d) (y + snd d) = Inr (cell layout (y + snd d) (x + fst d))"
    using assms by (simp add: getCell_def)
  then show ?case using Cons by (simp add: smoothNeighbor_def)
qed

lemma wallsAround_interior:
  assumes "1 \<le> y" "y \<le> height - 2" "1 \<le> x" "x \<le> width - 2"
  shows "wallsAround layout width height x y =
         int (length (filter (\<lambda>d. cell layout (y + snd d) (x + fst d) = Some WALL) offsets))"
proof -
  have "wallOrOutside layout width height x y d = (cell layout (y + snd d) (x + fst d) = Some WALL)"
    if "d \<in> set offsets" for d
    using that assms by (auto simp: offsets_def wallOrOutside_def)
  then have "filter (wallOrOutside layout width height x y) offsets =
             filter (\<lambda>d. cell layout (y + snd d) (x + fst d) = Some WALL) offsets"
    by (intro filter_cong) auto
  then show ?thesis by (simp add: wallsAround_def)
qed

lemma smoothCell_eq:
  assumes "1 \<le> y" "y \<le> rows layout - 2" "1 \<le> x" "x \<le> width - 2" "rows nl = rows layout"
  shows "smoothCell layout y x nl =
     Inr \<lparr> rows = rows nl, rowlen = (rowlen nl)(y := max (rowlen nl y) (x + 1)),
           cell = (cell nl)(y := (cell nl y)(x := Some (majorityTile (wallsAround layout width (rows layout) x y)))) \<rparr>"
  using assms
  by (simp add: smoothCell_def smoothWallCount_def forE_smoothNeighbor wallsAround_interior
      setCell_def majorityTile_def)

lemma smoothRow_inv:
  assumes "1 \<le> y" "y \<le> rows layout - 2" "rows nl = rows layout"
  shows "\<exists>s. smoothRow layout width y nl = Inr s \<and> smoothRowInv layout width y nl (max 1 (width - 1)) s"
proof -
  have "\<exists>s. forE (smoothCell layout y) [1..width - 2] nl = Inr s \<and>
            smoothRowInv layout width y nl (max 1 (width - 2 + 1)) s"
  proof (rule forE_upto [where ?i0.0 = 1])
    fix k s assume "1 \<le> k" "k \<le> width - 2" "smoothRowInv layout width y nl k s"
    then show "\<exists>s'. smoothCell layout y k s = Inr s' \<and> smoothRowInv layout width y nl (k + 1) s'"
      using assms by (auto simp: smoothCell_eq [where width = width] smoothRowInv_def)
  next
    show "smoothRowInv layout width y nl 1 nl"
      by (auto simp: smoothRowInv_def)
  qed simp
  then show ?thesis by (simp add: smoothRow_def)
qed

lemma smoothRows_inv:
  assumes "rows nl = rows layout"
  shows "\<exists>s. forE (smoothRow layout width) [1..rows layout - 2] nl = Inr s \<and>
             smoothInv layout width nl (max 1 (rows layout - 1)) s"
proof -
  have "\<exists>s. forE (smoothRow layout width) [1..rows layout - 2] nl = Inr s \<and>
            smoothInv layout width nl (max 1 (rows layout - 2 + 1)) s"
  proof (rule forE_upto [where ?i0.0 = 1])
    fix k s assume k: "1 \<le> k" "k \<le> rows layout - 2" and inv: "smoothInv layout width nl k s"
    then have "rows s = rows layout" using assms by (simp add: smoothInv_def)
    from smoothRow_inv [OF k this, of width] obtain s'
      where s': "smoothRow layout width k s = Inr s'"
        "smoothRowInv layout width k s (max 1 (width - 1)) s'" by blast
    have "smoothInv layout width nl (k + 1) s'"
      using inv s'(2) k unfolding smoothInv_def smoothRowInv_def by auto
    with s'(1) show "\<exists>s'. smoothRow layout width k s = Inr s' \<and> smoothInv layout width nl (k + 1) s'"
      by blast
  next
    show "smoothInv layout width nl 1 nl"
      by (auto simp: smoothInv_def)
  qed simp
  then show ?thesis by simp
qed

lemma copyCell_eq:
  assumes "0 \<le> y" "y < rows l" "rows nl = rows l"
  shows "copyCell nl y x l =
     Inr \<lparr> rows = rows l, rowlen = (rowlen l)(y := max (rowlen l y) (x + 1)),
           cell = (cell l)(y := (cell l y)(x := cell nl y x)) \<rparr>"
  using assms by (simp add: copyCell_def getCell_def setCell_def)

lemma copyRow_inv:
  assumes "0 \<le> y" "y < rows l" "rows nl = rows l"
  shows "\<exists>s. copyRow nl width y l = Inr s \<and> copyRowInv nl y l (max 0 width) s"
proof -
  have "\<exists>s. forE (copyCell nl y) [0..width - 1] l = Inr s \<and>
            copyRowInv nl y l (max 0 (width - 1 + 1)) s"
  proof (rule forE_upto [where ?i0.0 = 0])
    fix k s assume "0 \<le> k" "k \<le> width - 1" "copyRowInv nl y l k s"
    then show "\<exists>s'. copyCell nl y k s = Inr s' \<and> copyRowInv nl y l (k + 1) s'"
      using assms by (auto simp: copyCell_eq copyRowInv_def)
  next
    show "copyRowInv nl y l 0 l"
      by (auto simp: copyRowInv_def)
  qed simp
  then show ?thesis by (simp add: copyRow_def)
qed

lemma copyRows_inv:
  assumes "rows nl = rows l"
  shows "\<exists>s. forE (copyRow nl width) [0..rows l - 1] l = Inr s \<and> copyInv nl width l (max 0 (rows l)) s"
proof -
  have "\<exists>s. forE (copyRow nl width) [0..rows l - 1] l = Inr s \<and>
            copyInv nl width l (max 0 (rows l - 1 + 1)) s"
  proof (rule forE_upto [where ?i0.0 = 0])
    fix k s assume k: "0 \<le> k" "k \<le> rows l - 1" and inv: "copyInv nl width l k s"
    then have "k < rows s" "rows nl = rows s" using assms by (simp_all add: copyInv_def)
    from copyRow_inv [OF k(1) this, of width] obtain s'
      where s': "copyRow nl width k s = Inr s'" "copyRowInv nl k s (max 0 width) s'" by blast
    have "copyInv nl width l (k + 1) s'"
      using inv s'(2) k unfolding copyInv_def copyRowInv_def by auto
    with s'(1) show "\<exists>s'. copyRow nl width k s = Inr s' \<and> copyInv nl width l (k + 1) s'"
      by blast
  next
    show "copyInv nl width l 0 l"
      by (auto simp: copyInv_def)
  qed simp
  then show ?thesis by simp
qed

lemma smoothCaves_cells:
  assumes "0 < rows layout"
    and "\<forall>y. 0 \<le> y \<and> y < rows layout \<longrightarrow> rowlen layout 0 \<le> rowlen layout y"
  shows "\<exists>l'. smoothCaves layout = Inr l' \<and> rows l' = rows layout \<and>
          (\<forall>x y. cell l' y x =
             (if 1 \<le> x \<and> x \<le> rowlen layout 0 - 2 \<and> 1 \<le> y \<and> y \<le> rows layout - 2
              then Some (majorityTile (wallsAround layout (rowlen layout 0) (rows layout) x y))
              else cell layout y x))"
proof -
  let ?w = "rowlen layout 0"
  have w: "rowLength layout 0 = Inr ?w" using assms(1) by (simp add: rowLength_def)
  have "rows (jsonCopy layout) = rows layout" by (simp add: jsonCopy_def)
  from smoothRows_inv [OF this, of ?w] obtain nl
    where nl: "forE (smoothRow layout ?w) [1..rows layout - 2] (jsonCopy layout) = Inr nl"
      "smoothInv layout ?w (jsonCopy layout) (max 1 (rows layout - 1)) nl" by blast
  then have "rows nl = rows layout" by (simp add: smoothInv_def jsonCopy_def)
  from copyRows_inv [OF this, of ?w] obtain l'
    where l': "forE (copyRow nl ?w) [0..rows layout - 1] layout = Inr l'"
      "copyInv nl ?w layout (max 0 (rows layout)) l'" by blast
  have "smoothCaves layout = Inr l'" using w nl(1) l'(1) by (simp add: smoothCaves_def)
  moreover have "rows l' = rows layout" using l'(2) by (simp add: copyInv_def)
  moreover have "cell l' y x =
             (if 1 \<le> x \<and> x \<le> ?w - 2 \<and> 1 \<le> y \<and> y \<le> rows layout - 2
              then Some (majorityTile (wallsAround layout ?w (rows layout) x y))
              else cell layout y x)" for x y
    using l'(2) nl(2) assms unfolding copyInv_def smoothInv_def jsonCopy_def
    by (auto simp: max_def)
  ultimately show ?thesis by blast
qed

subsection \<open>What the connectivity repair joins\<close>

lemma joined_refl [simp]: "joined layout p p"
  by (simp add: joined_def)

lemma joined_trans [trans]: "joined layout p q \<Longrightarrow> joined layout q r \<Longrightarrow> joined layout p r"
  by (simp add: joined_def)

lemma joined_step: "joined layout p q \<Longrightarrow> floorStep layout q r \<Longrightarrow> joined layout p r"
  by (simp add: joined_def)

lemma floorStep_sym: "floorStep layout p q \<Longrightarrow> floorStep layout q p"
  by (auto simp: floorStep_def manhattan_def)

lemma joined_sym: "joined layout p q \<Longrightarrow> joined layout q p"
  unfolding joined_def
proof (induction rule: rtranclp_induct)
  case base
  show ?case by simp
next
  case (step y z)
  have "(floorStep layout)\<^sup>*\<^sup>* z y" using floorStep_sym [OF step.hyps(2)] by blast
  with step.IH show ?case by simp
qed

lemma joined_mono:
  assumes "\<forall>c. isFloor l c \<longrightarrow> isFloor l' c" and "joined l p q"
  shows "joined l' p q"
  using assms(2) unfolding joined_def
proof (induction rule: rtranclp_induct)
  case base
  show ?case by simp
next
  case (step y z)
  have "floorStep l' y z" using step.hyps(2) assms(1) unfolding floorStep_def by blast
  with step.IH show ?case by simp
qed

lemma floodLoop_joined:
  assumes "\<forall>p \<in> set region. isFloor layout p \<and> joined layout s p \<and> 0 \<le> snd p \<and> snd p < height"
    and "\<forall>p \<in> set stack. isFloor layout p \<longrightarrow> joined layout s p"
  shows "\<forall>p \<in> set (fst (floodLoop layout width height visited stack region)).
           isFloor layout p \<and> joined layout s p \<and> 0 \<le> snd p \<and> snd p < height"
  using assms
proof (induction layout width height visited stack region rule: floodLoop.induct)
  case (1 layout width height visited stack region)
  show ?case
  proof (cases stack)
    case Nil
    then show ?thesis using "1.prems" by (simp add: floodLoop.simps [of _ _ _ _ "[]"])
  next
    case (Cons p rest)
    show ?thesis
    proof (cases "fst p < 0 \<or> fst p \<ge> width \<or> snd p < 0 \<or> snd p \<ge> height \<or> visited (snd p) (fst p) \<or>
              cell layout (snd p) (fst p) \<noteq> Some FLOOR")
      case True
      have "\<forall>p \<in> set (fst (floodLoop layout width height visited rest region)).
           isFloor layout p \<and> joined layout s p \<and> 0 \<le> snd p \<and> snd p < height"
        using "1.IH"(1) [OF Cons True] "1.prems" Cons by simp
      then show ?thesis using Cons True by (simp add: floodLoop.simps [of _ _ _ _ "p # rest"])
    next
      case False
      then have fl: "isFloor layout p" by (simp add: isFloor_def)
      then have jp: "joined layout s p" using "1.prems"(2) Cons by simp
      have nb: "isFloor layout q \<longrightarrow> joined layout s q"
        if "q \<in> {(fst p, snd p - 1), (fst p, snd p + 1), (fst p - 1, snd p), (fst p + 1, snd p)}" for q
      proof
        assume "isFloor layout q"
        then have "floorStep layout p q" using fl that by (auto simp: floorStep_def manhattan_def)
        with jp show "joined layout s q" by (rule joined_step)
      qed
      have "\<forall>p \<in> set (fst (floodLoop layout width height (markVisited visited (fst p) (snd p))
                  ((fst p, snd p - 1) # (fst p, snd p + 1) # (fst p - 1, snd p) # (fst p + 1, snd p) # rest)
                  (region @ [p]))).
           isFloor layout p \<and> joined layout s p \<and> 0 \<le> snd p \<and> snd p < height"
      proof (rule "1.IH"(2) [OF Cons False])
        show "\<forall>q\<in>set (region @ [p]). isFloor layout q \<and> joined layout s q \<and> 0 \<le> snd q \<and> snd q < height"
          using "1.prems"(1) fl jp False by auto
        show "\<forall>q\<in>set ((fst p, snd p - 1) # (fst p, snd p + 1) # (fst p - 1, snd p) # (fst p + 1, snd p) # rest).
                isFloor layout q \<longrightarrow> joined layout s q"
          using nb "1.prems"(2) Cons by auto
      qed
      then show ?thesis using Cons False by (simp add: floodLoop.simps [of _ _ _ _ "p # rest"])
    qed
  qed
qed

lemma floodFill_goodRegion:
  assumes "floodFill layout visited x y = Inr rv"
  shows "goodRegion layout (fst rv)"
proof -
  obtain width where rv: "rv = floodLoop layout width (rows layout) visited [(x, y)] []"
    using assms by (auto simp: floodFill_def split: sum.splits)
  have inv: "\<forall>p \<in> set (fst rv). isFloor layout p \<and> joined layout (x, y) p \<and> 0 \<le> snd p \<and> snd p < rows layout"
    unfolding rv by (rule floodLoop_joined) simp_all
  have "joined layout p q" if "p \<in> set (fst rv)" "q \<in> set (fst rv)" for p q
    using inv that joined_sym [of layout "(x, y)" p] joined_trans [of layout p "(x, y)" q] by blast
  with inv show ?thesis by (simp add: goodRegion_def)
qed

lemma floodFill_returns: "0 < rows layout \<Longrightarrow> \<exists>rv. floodFill layout visited x y = Inr rv"
  by (simp add: floodFill_def rowLength_def)

lemma forE_total:
  assumes "\<And>a s. a \<in> set xs \<Longrightarrow> P s \<Longrightarrow> \<exists>s'. body a s = Inr s' \<and> P s'"
  shows "P s \<Longrightarrow> \<exists>s'. forE body xs s = Inr s' \<and> P s'"
  using assms
proof (induction xs arbitrary: s)
  case Nil
  then show ?case by simp
next
  case (Cons a xs)
  from Cons.prems(2) [of a s] Cons.prems(1) obtain s1 where s1: "body a s = Inr s1" "P s1" by auto
  from Cons.IH [OF s1(2)] Cons.prems(2) obtain s' where "forE body xs s1 = Inr s'" "P s'" by auto
  with s1(1) show ?case by simp
qed

lemma scanCell_good:
  assumes "0 < rows layout" "goodRegions layout vr"
  shows "\<exists>vr'. scanCell layout y x vr = Inr vr' \<and> goodRegions layout vr'"
proof (cases "cell layout y x = Some FLOOR \<and> \<not> fst vr y x")
  case True
  from floodFill_returns [OF assms(1)] obtain rv where rv: "floodFill layout (fst vr) x y = Inr rv" by blast
  have "goodRegions layout (snd rv, keepRegion (snd vr) (fst rv))"
    using assms(2) floodFill_goodRegion [OF rv] by (auto simp: goodRegions_def keepRegion_def)
  then show ?thesis using True rv by (simp add: scanCell_def)
next
  case False
  then have "scanCell layout y x vr = Inr vr" by (auto simp: scanCell_def)
  then show ?thesis using assms(2) by simp
qed

lemma scanRow_good:
  assumes "0 < rows layout" "goodRegions layout vr"
  shows "\<exists>vr'. scanRow layout width y vr = Inr vr' \<and> goodRegions layout vr'"
  unfolding scanRow_def using assms(2)
  by (rule forE_total [where P = "goodRegions layout", rotated]) (rule scanCell_good [OF assms(1)])

lemma findRegions_good:
  assumes "0 < rows layout"
  shows "\<exists>vr. findRegions layout width height = Inr vr \<and> goodRegions layout vr"
  unfolding findRegions_def
proof (rule forE_total [where P = "goodRegions layout"])
  show "goodRegions layout (\<lambda>y x. False, [])" by (simp add: goodRegions_def)
qed (rule scanRow_good [OF assms])

lemma forE_carveStep:
  "\<forall>c \<in> set cs. 0 \<le> snd c \<and> snd c < rows l \<Longrightarrow>
   \<exists>l'. forE carveStep cs l = Inr l' \<and> rows l' = rows l \<and>
        (\<forall>c. isFloor l' c = (c \<in> set cs \<or> isFloor l c))"
proof (induction cs arbitrary: l)
  case Nil
  then show ?case by simp
next
  case (Cons a cs)
  define l1 where "l1 = \<lparr> rows = rows l, rowlen = (rowlen l)(snd a := max (rowlen l (snd a)) (fst a + 1)),
                 cell = (cell l)(snd a := (cell l (snd a))(fst a := Some FLOOR)) \<rparr>"
  have s1: "carveStep a l = Inr l1" using Cons.prems by (simp add: carveStep_def setCell_def l1_def)
  have r1: "rows l1 = rows l" by (simp add: l1_def)
  have f1: "isFloor l1 c = (c = a \<or> isFloor l c)" for c
    by (cases c; cases a) (auto simp: l1_def isFloor_def)
  from Cons.IH [of l1] Cons.prems r1 obtain l' where
    "forE carveStep cs l1 = Inr l'" "rows l' = rows l1" "\<forall>c. isFloor l' c = (c \<in> set cs \<or> isFloor l1 c)"
    by auto
  then show ?case using s1 r1 f1 by auto
qed

lemma set_walk: "set (walk a b) = (if a \<le> b then {a..b - 1} else {b + 1..a})"
  by (simp add: walk_def)

lemma joined_row:
  assumes "\<And>x. min a b \<le> x \<Longrightarrow> x \<le> max a b \<Longrightarrow> isFloor l (x, y)"
  shows "joined l (a, y) (b, y)"
  using assms
proof (induction "nat \<bar>b - a\<bar>" arbitrary: b)
  case 0
  then have "b = a" by simp
  then show ?case by simp
next
  case (Suc n)
  define b' where "b' = (if a < b then b - 1 else b + 1)"
  have ne: "a \<noteq> b" using Suc.hyps(2) by auto
  have n: "n = nat \<bar>b' - a\<bar>" using Suc.hyps(2) ne by (auto simp: b'_def)
  have "joined l (a, y) (b', y)"
  proof (rule Suc.hyps(1) [OF n])
    fix x assume "min a b' \<le> x" "x \<le> max a b'"
    then show "isFloor l (x, y)" using ne by (intro Suc.prems) (auto simp: b'_def split: if_splits)
  qed
  moreover have "floorStep l (b', y) (b, y)"
    using Suc.prems [of b'] Suc.prems [of b] ne by (auto simp: floorStep_def manhattan_def b'_def)
  ultimately show ?case by (rule joined_step)
qed

lemma joined_column:
  assumes "\<And>y. min a b \<le> y \<Longrightarrow> y \<le> max a b \<Longrightarrow> isFloor l (x, y)"
  shows "joined l (x, a) (x, b)"
  using assms
proof (induction "nat \<bar>b - a\<bar>" arbitrary: b)
  case 0
  then have "b = a" by simp
  then show ?case by simp
next
  case (Suc n)
  define b' where "b' = (if a < b then b - 1 else b + 1)"
  have ne: "a \<noteq> b" using Suc.hyps(2) by auto
  have n: "n = nat \<bar>b' - a\<bar>" using Suc.hyps(2) ne by (auto simp: b'_def)
  have "joined l (x, a) (x, b')"
  proof (rule Suc.hyps(1) [OF n])
    fix y assume "min a b' \<le> y" "y \<le> max a b'"
    then show "isFloor l (x, y)" using ne by (intro Suc.prems) (auto simp: b'_def split: if_splits)
  qed
  moreover have "floorStep l (x, b') (x, b)"
    using Suc.prems [of b'] Suc.prems [of b] ne by (auto simp: floorStep_def manhattan_def b'_def)
  ultimately show ?case by (rule joined_step)
qed

lemma carvePath_rows:
  assumes "0 \<le> snd p" "snd p < h" "0 \<le> snd q" "snd q < h" "c \<in> set (carvePath p q)"
  shows "0 \<le> snd c \<and> snd c < h"
  using assms by (auto simp: carvePath_def set_walk split: if_splits)

lemma carvePath_row:
  assumes "min (fst p) (fst q) \<le> x" "x \<le> max (fst p) (fst q)"
  shows "(x, snd p) \<in> set (carvePath p q)"
proof (cases "x = fst q")
  case True
  show ?thesis
  proof (cases "snd p = snd q")
    case True
    with \<open>x = fst q\<close> have "(x, snd p) = q" by (cases q) simp
    then show ?thesis by (simp add: carvePath_def)
  next
    case False
    then have "snd p \<in> set (walk (snd p) (snd q))" by (auto simp: set_walk)
    then show ?thesis using True by (auto simp: carvePath_def)
  qed
next
  case False
  then have "x \<in> set (walk (fst p) (fst q))" using assms by (auto simp: set_walk)
  then show ?thesis by (auto simp: carvePath_def)
qed

lemma carvePath_column:
  assumes "min (snd p) (snd q) \<le> y" "y \<le> max (snd p) (snd q)"
  shows "(fst q, y) \<in> set (carvePath p q)"
proof (cases "y = snd q")
  case True
  then have "(fst q, y) = q" by (cases q) simp
  then show ?thesis by (simp add: carvePath_def)
next
  case False
  then have "y \<in> set (walk (snd p) (snd q))" using assms by (auto simp: set_walk)
  then show ?thesis by (auto simp: carvePath_def)
qed

lemma carveConnection_joins:
  assumes "0 \<le> snd p" "snd p < rows l" "0 \<le> snd q" "snd q < rows l"
  shows "\<exists>l'. carveConnection l p q = Inr l' \<and> rows l' = rows l \<and>
              (\<forall>c. isFloor l c \<longrightarrow> isFloor l' c) \<and> joined l' p q"
proof -
  have "\<forall>c \<in> set (carvePath p q). 0 \<le> snd c \<and> snd c < rows l"
    using carvePath_rows [OF assms] by blast
  from forE_carveStep [OF this] obtain l' where
    l': "carveConnection l p q = Inr l'" "rows l' = rows l"
      "\<forall>c. isFloor l' c = (c \<in> set (carvePath p q) \<or> isFloor l c)"
    by (auto simp: carveConnection_def)
  have "joined l' (fst p, snd p) (fst q, snd p)"
    by (rule joined_row) (simp add: l'(3) carvePath_row)
  moreover have "joined l' (fst q, snd p) (fst q, snd q)"
    by (rule joined_column) (simp add: l'(3) carvePath_column)
  ultimately have "joined l' p q" using joined_trans by fastforce
  with l' show ?thesis by auto
qed

lemma foldl_closerPair:
  assumes "\<forall>b. best = Some b \<longrightarrow> snd b \<in> A" "set ps \<subseteq> A" "best \<noteq> None \<or> ps \<noteq> []"
  shows "\<exists>b. foldl closerPair best ps = Some b \<and> snd b \<in> A"
  using assms
proof (induction ps arbitrary: best)
  case Nil
  then show ?case by auto
next
  case (Cons pq ps)
  have "\<exists>b. closerPair best pq = Some b \<and> snd b \<in> A"
    using Cons.prems(1,2) by (cases best; cases pq) (auto simp: closerPair_def)
  then have "\<forall>b. closerPair best pq = Some b \<longrightarrow> snd b \<in> A" "closerPair best pq \<noteq> None \<or> ps \<noteq> []"
    by auto
  from Cons.IH [OF this(1) _ this(2)] Cons.prems(2) show ?case by simp
qed

lemma bestConnection_Some:
  assumes "r1 \<noteq> []" "r2 \<noteq> []"
  shows "\<exists>b. bestConnection r1 r2 = Some b \<and> fst (snd b) \<in> set r1 \<and> snd (snd b) \<in> set r2"
proof -
  have "List.product r1 r2 \<noteq> []"
    using assms by (cases r1; cases r2) auto
  then have "\<exists>b. foldl closerPair None (List.product r1 r2) = Some b \<and> snd b \<in> set r1 \<times> set r2"
    by (intro foldl_closerPair) auto
  then show ?thesis by (auto simp: bestConnection_def)
qed

lemma connectRegions_joins:
  assumes "inRows l r1" "inRows l r2"
  shows "\<exists>l'. connectRegions l r1 r2 = Inr l' \<and> rows l' = rows l \<and>
              (\<forall>c. isFloor l c \<longrightarrow> isFloor l' c) \<and> (\<exists>p \<in> set r1. \<exists>q \<in> set r2. joined l' p q)"
proof -
  from bestConnection_Some [of r1 r2] assms obtain b where
    b: "bestConnection r1 r2 = Some b" "fst (snd b) \<in> set r1" "snd (snd b) \<in> set r2"
    by (auto simp: inRows_def)
  have "0 \<le> snd (fst (snd b))" "snd (fst (snd b)) < rows l" "0 \<le> snd (snd (snd b))" "snd (snd (snd b)) < rows l"
    using assms b(2,3) by (auto simp: inRows_def)
  from carveConnection_joins [OF this] obtain l' where
    "carveConnection l (fst (snd b)) (snd (snd b)) = Inr l'" "rows l' = rows l"
    "\<forall>c. isFloor l c \<longrightarrow> isFloor l' c" "joined l' (fst (snd b)) (snd (snd b))" by blast
  then show ?thesis using b by (auto simp: connectRegions_def)
qed

lemma forE_connectTo:
  assumes "inRows l r1" "\<forall>r \<in> set rs. inRows l r"
  shows "\<exists>l'. forE (connectTo r1) rs l = Inr l' \<and> rows l' = rows l \<and>
              (\<forall>c. isFloor l c \<longrightarrow> isFloor l' c) \<and>
              (\<forall>r \<in> set rs. \<exists>p \<in> set r1. \<exists>q \<in> set r. joined l' p q)"
  using assms
proof (induction rs arbitrary: l)
  case Nil
  then show ?case by simp
next
  case (Cons r rs)
  from connectRegions_joins [of l r1 r] Cons.prems obtain l1 p q where
    l1: "connectRegions l r1 r = Inr l1" "rows l1 = rows l" "\<forall>c. isFloor l c \<longrightarrow> isFloor l1 c"
      "p \<in> set r1" "q \<in> set r" "joined l1 p q" by auto
  have "inRows l1 r1" "\<forall>r \<in> set rs. inRows l1 r"
    using Cons.prems l1(2) by (auto simp: inRows_def)
  from Cons.IH [OF this] obtain l' where
    l': "forE (connectTo r1) rs l1 = Inr l'" "rows l' = rows l1" "\<forall>c. isFloor l1 c \<longrightarrow> isFloor l' c"
      "\<forall>r \<in> set rs. \<exists>p \<in> set r1. \<exists>q \<in> set r. joined l' p q" by blast
  have "joined l' p q" using l'(3) l1(6) by (rule joined_mono)
  then have "\<forall>r' \<in> set (r # rs). \<exists>p \<in> set r1. \<exists>q \<in> set r'. joined l' p q"
    using l'(4) l1(4,5) by auto
  moreover have "forE (connectTo r1) (r # rs) l = Inr l'"
    using l1(1) l'(1) by (simp add: connectTo_def)
  ultimately show ?case using l'(2,3) l1(2,3) by auto
qed

lemma goodRegion_inRows: "goodRegion l r \<Longrightarrow> 10 < length r \<Longrightarrow> inRows l r"
  by (auto simp: goodRegion_def inRows_def)

lemma largeRegions_good:
  assumes "0 < rows layout" "r \<in> set (largeRegions layout)"
  shows "goodRegion layout r \<and> 10 < length r"
proof -
  from findRegions_good [OF assms(1), of "rowlen layout 0" "rows layout"] obtain vr where
    "findRegions layout (rowlen layout 0) (rows layout) = Inr vr" "goodRegions layout vr" by blast
  then show ?thesis using assms by (auto simp: largeRegions_def rowLength_def goodRegions_def)
qed

lemma ensureConnectivity_eq:
  assumes "0 < rows layout"
  shows "ensureConnectivity layout =
           (if length (largeRegions layout) > 1
            then forE (connectTo (hd (largeRegions layout))) (tl (largeRegions layout)) layout
            else Inr layout)"
proof -
  from findRegions_good [OF assms(1), of "rowlen layout 0" "rows layout"] obtain vr where
    "findRegions layout (rowlen layout 0) (rows layout) = Inr vr" by blast
  then show ?thesis using assms by (simp add: ensureConnectivity_def largeRegions_def rowLength_def)
qed

section \<open>The claims\<close>

subsection \<open>C9: the range of the random source\<close>

text \<open>
  C9 (the code departs from it). The claim: for every integer seed the random source is
  total, repeats its sequence for the same seed, and every value of \<^verbatim>\<open>next()\<close> lies in
  \<open>[0, 1)\<close>. The source is total and a function of the seed, and for a seed \<open>\<ge> 0\<close> every
  value lies in \<open>[0, 1)\<close> (\<open>createSeededRandom_range\<close>). For the seed \<open>-6\<close> the first value
  is \<open>-6509 / 233280\<close>, below \<open>0\<close>: the remainder \<^verbatim>\<open>%\<close> keeps the sign of the negative
  dividend \<open>-6 * 9301 + 49297 = -6509\<close>.
\<close>

theorem createSeededRandom_negative_seed:
  "createSeededRandom (- 6) 0 = - (6509 / 233280) \<and> createSeededRandom (- 6) 0 < 0"
  by (simp add: createSeededRandom_def rng_value_def rng_step_def fl_def jsmod_def)

subsection \<open>Runs of the generator on concrete inputs\<close>

text \<open>
  The generator evaluated on the inputs the claims below refer to. The binary-tree runs
  are made by generators built without a seed at the clock readings \<open>1700000000000\<close> and
  \<open>1700000000001\<close> (milliseconds, November 2023).
\<close>

lemma MazeGenerator_new_zero: "MazeGenerator_new (Some 0) now = MazeGenerator_new None now"
  by (simp add: MazeGenerator_new_def)

lemma run_tree_clock_a:
  "map_option m_spawnPoints (mazeOf (generateMaze flatNoise (MazeGenerator_new None 1700000000000)
     (plainOptions 7 7 BINARY_TREE) 0)) = Some [(1, 2), (4, 5), (5, 1), (2, 1)]"
  by code_simp

lemma run_tree_clock_b:
  "map_option m_spawnPoints (mazeOf (generateMaze flatNoise (MazeGenerator_new None 1700000000001)
     (plainOptions 7 7 BINARY_TREE) 0)) = Some [(5, 1), (2, 5), (3, 5), (5, 5)]"
  by code_simp

lemma run_all_walls:
  "map_option findFloorTiles (layoutBefore flatNoise (MazeGenerator_new (Some 1) 0)
     ((plainOptions 5 5 CELLULAR_AUTOMATA) \<lparr> opt_density := Some 1, opt_iterations := Some 0 \<rparr>)) = Some []"
  by code_simp

lemma run_tree_candidates:
  "map_option doorCandidates (layoutBefore flatNoise (MazeGenerator_new None 1700000000000)
     (plainOptions 7 7 BINARY_TREE))
   = Some [(2, 2), (3, 2), (4, 2), (5, 2), (2, 4), (4, 4), (5, 4), (2, 5)]"
  by code_simp

lemma mazeOf_Some: "map_option f (mazeOf r) = Some v \<Longrightarrow> \<exists>mg. r = Some (Inr mg)"
  by (auto simp: mazeOf_def split: option.splits sum.splits)

lemma outcome_spawnPoints:
  "outcome r1 = outcome r2 \<Longrightarrow>
     map_option m_spawnPoints (mazeOf r1) = map_option m_spawnPoints (mazeOf r2)"
  by (cases r1; cases r2)
     (auto simp: outcome_def mazeOf_def dropId_def observable_def split: sum.splits)

lemma generateSpawnPoints_no_floor: "generateSpawnPoints [] 4 st = Some (Inl TypeError)"
proof -
  have "spawnSlot [] 4 0 ([], {}, st) = Inl TypeError"
    by (simp add: spawnSlot_def spawnAttempts.simps [of 0] drawTile_def pick_def)
  then have "forE (spawnSlot [] 4) [0..4 - 1] ([], {}, st) = Inl TypeError"
    by (simp add: upto.simps [of 0 3])
  then show ?thesis
    by (simp add: generateSpawnPoints_def)
qed

lemma outcome_generateMaze_clock:
  "outcome (generateMaze noise g options t1) = outcome (generateMaze noise g options t2)"
  by (simp add: generateMaze_def finishMaze_def outcome_def dropId_def observable_def
        split: sum.splits option.splits)

subsection \<open>C2: determinism for a fixed seed\<close>

text \<open>
  C2 (corrected). The claim: for every options with a fixed seed, two calls, each on a
  generator constructed from that seed, give identical grids and coordinate lists. It
  fails for the seed \<open>0\<close>: the constructor replaces a falsy seed by the clock, and two
  generators built from the seed \<open>0\<close> one millisecond apart place the spawn points of a
  7 by 7 binary-tree maze differently.
\<close>

theorem generateMaze_seed_zero_differs:
  "outcome (generateMaze flatNoise (MazeGenerator_new (Some 0) 1700000000000)
      (plainOptions 7 7 BINARY_TREE) 0)
   \<noteq> outcome (generateMaze flatNoise (MazeGenerator_new (Some 0) 1700000000001)
      (plainOptions 7 7 BINARY_TREE) 0)"
proof
  assume "outcome (generateMaze flatNoise (MazeGenerator_new (Some 0) 1700000000000)
      (plainOptions 7 7 BINARY_TREE) 0)
   = outcome (generateMaze flatNoise (MazeGenerator_new (Some 0) 1700000000001)
      (plainOptions 7 7 BINARY_TREE) 0)"
  from outcome_spawnPoints [OF this] show False
    by (simp add: MazeGenerator_new_zero run_tree_clock_a run_tree_clock_b)
qed

text \<open>
  C2 as amended: for every seed other than \<open>0\<close>, every options and every noise function,
  two calls, each on a generator constructed from that seed (at whatever clock readings),
  have the same outcome up to the \<^verbatim>\<open>id\<close>: both do not return, or both throw the same
  error, or both return the same grid, spawn points, key spawns, door positions and exit
  position (and leave the same generator state).
\<close>

theorem generateMaze_deterministic:
  "seed \<noteq> 0 \<Longrightarrow>
     outcome (generateMaze noise (MazeGenerator_new (Some seed) now1) options t1)
     = outcome (generateMaze noise (MazeGenerator_new (Some seed) now2) options t2)"
proof -
  assume "seed \<noteq> 0"
  then have "MazeGenerator_new (Some seed) now1 = MazeGenerator_new (Some seed) now2"
    by (simp add: MazeGenerator_new_def)
  then show ?thesis
    using outcome_generateMaze_clock [of noise "MazeGenerator_new (Some seed) now2" options t1 t2]
    by simp
qed

theorem generateMaze_deterministic_witness:
  "(42 :: int) \<noteq> 0 \<and>
   outcome (generateMaze flatNoise (MazeGenerator_new (Some 42) 1700000000000)
      (plainOptions 32 21 RECURSIVE_BACKTRACKING) 1700000000007)
   = outcome (generateMaze flatNoise (MazeGenerator_new (Some 42) 1700000000001)
      (plainOptions 32 21 RECURSIVE_BACKTRACKING) 1700000000009)"
  using generateMaze_deterministic [of 42 flatNoise 1700000000000
      "plainOptions 32 21 RECURSIVE_BACKTRACKING" 1700000000007 1700000000001 1700000000009]
  by simp

subsection \<open>C4: the boundary of the returned layout\<close>

text \<open>
  C4 (the code departs from it). The claim: in every maze returned, every cell of row
  \<open>0\<close>, row \<open>height - 1\<close>, column \<open>0\<close> and column \<open>width - 1\<close> is \<open>WALL\<close>. For the seed
  \<open>15\<close>, a 5 by 5 grid, recursive backtracking and one room, the room drawn is 7 wide at
  \<open>x = 0\<close>: carving it extends rows 1 to 3 to the length 7, the boundary pass walls column
  \<open>4\<close>, the door scan (which runs to \<^verbatim>\<open>layout[y].length - 2\<close>) takes the cells of column
  \<open>4\<close> for inner walls next to floor, and the maze returned has three doors in its last
  column.
\<close>

theorem generateMaze_doors_in_last_column:
  "map_option lastColumn (mazeOf (generateMaze flatNoise (MazeGenerator_new (Some 15) 0)
     ((plainOptions 5 5 RECURSIVE_BACKTRACKING) \<lparr> opt_roomCount := Some 1 \<rparr>) 0))
   = Some [Some WALL, Some DOOR, Some DOOR, Some DOOR, Some WALL]"
  by code_simp

subsection \<open>C5: termination without an access outside the grid\<close>

text \<open>
  C5 (the code departs from it). The claim: for options within the documented bounds
  whose carved grid has floor, \<^verbatim>\<open>generateMaze\<close> returns a maze with no access outside
  the grid and no uncaught error; in particular room injection never indexes outside the
  grid. For the seed \<open>1\<close>, a 5 by 5 grid and recursive backtracking with the default room
  sizes, the first room is 7 by 6 at \<open>(0, -2)\<close>, and the first write, to \<^verbatim>\<open>layout[-2][0]\<close>,
  throws.
\<close>

theorem generateMaze_room_outside_grid:
  "thrownBy (generateMaze noise (MazeGenerator_new (Some 1) t)
     (plainOptions 5 5 RECURSIVE_BACKTRACKING) now) = Some TypeError"
  by (simp add: maze_eval cong: let_weak_cong)

subsection \<open>C8: a grid without floor\<close>

text \<open>
  C8 (corrected). The claim: with zero floor cells after carving and boundary
  enforcement, \<^verbatim>\<open>generateMaze\<close> aborts with the distinct \<open>InfeasibleLevelError\<close>. The source
  has no such error. With density \<open>1\<close> every cell of a 5 by 5 cellular-automata grid is a
  wall, and the call ends with the \<open>TypeError\<close> of the first spawn draw.
\<close>

theorem generateMaze_all_walls_throws_TypeError:
  "thrownBy (generateMaze flatNoise (MazeGenerator_new (Some 1) 0)
     ((plainOptions 5 5 CELLULAR_AUTOMATA) \<lparr> opt_density := Some 1, opt_iterations := Some 0 \<rparr>) 0)
   = Some TypeError
   \<and> Some TypeError \<noteq> Some InfeasibleLevelError"
  by code_simp

text \<open>
  C8 as amended: if the grid has zero floor cells after carving and boundary enforcement,
  \<^verbatim>\<open>generateMaze\<close> does not return a maze: the first spawn draw reads
  \<^verbatim>\<open>floorTiles[0]\<close> of the empty list and the call ends with the \<open>TypeError\<close> of the property
  access on \<^verbatim>\<open>undefined\<close>.
\<close>

theorem generateMaze_no_floor:
  "map_option findFloorTiles (layoutBefore noise g options) = Some [] \<Longrightarrow>
     generateMaze noise g options now = Some (Inl TypeError)"
  by (auto simp: layoutBefore_def generateMaze_def generateSpawnPoints_no_floor
        split: sum.splits)

theorem generateMaze_no_floor_witness:
  "map_option findFloorTiles (layoutBefore flatNoise (MazeGenerator_new (Some 1) 0)
     ((plainOptions 5 5 CELLULAR_AUTOMATA) \<lparr> opt_density := Some 1, opt_iterations := Some 0 \<rparr>)) = Some []
   \<and> generateMaze flatNoise (MazeGenerator_new (Some 1) 0)
     ((plainOptions 5 5 CELLULAR_AUTOMATA) \<lparr> opt_density := Some 1, opt_iterations := Some 0 \<rparr>) 0
     = Some (Inl TypeError)"
  using generateMaze_no_floor [OF run_all_walls] run_all_walls by simp

subsection \<open>C10: the seed 0\<close>

text \<open>
  C10 (confirmed). Constructing the generator with the seed \<open>0\<close> is constructing it
  without a seed: the clock reading is used. So for the seed \<open>0\<close> the maze is not a
  function of the seed: built one millisecond apart, two such generators place the spawn
  points of a 7 by 7 binary-tree maze differently.
\<close>

theorem MazeGenerator_new_seed_zero:
  "MazeGenerator_new (Some 0) now = MazeGenerator_new None now
   \<and> map_option m_spawnPoints (mazeOf (generateMaze flatNoise (MazeGenerator_new (Some 0) 1700000000000)
        (plainOptions 7 7 BINARY_TREE) 0))
     \<noteq> map_option m_spawnPoints (mazeOf (generateMaze flatNoise (MazeGenerator_new (Some 0) 1700000000001)
        (plainOptions 7 7 BINARY_TREE) 0))"
  by (simp add: MazeGenerator_new_zero run_tree_clock_a run_tree_clock_b)

subsection \<open>C3: options below the documented bounds\<close>

text \<open>
  C3 (corrected). The claim: for width or height below 5, \<^verbatim>\<open>generateMaze\<close> raises
  \<open>ConfigurationError\<close> before any carving. The source checks nothing: for width 4 and
  height 4 the binary-tree carver runs and the call returns a maze, with the floor cell
  \<open>(1, 1)\<close> and doors at \<open>(2, 1)\<close> and \<open>(1, 2)\<close>.
\<close>

theorem generateMaze_four_by_four_returns:
  "map_option m_doorPositions (mazeOf (generateMaze flatNoise (MazeGenerator_new (Some 1) 0)
     (plainOptions 4 4 BINARY_TREE) 0)) = Some [(2, 1), (1, 2)]"
  by code_simp

text \<open>
  C3 as amended: \<^verbatim>\<open>generateMaze\<close> validates nothing and never raises
  \<open>ConfigurationError\<close>, whatever the options (width or height below 5 included): the
  selected carver runs, and the call returns, does not return, or ends with an error
  JavaScript throws on an array access.
\<close>

theorem generateMaze_never_ConfigurationError:
  "generateMaze noise g options now \<noteq> Some (Inl ConfigurationError)"
  using generateMaze_jsError [of noise g options now ConfigurationError] by auto

subsection \<open>C7: the door positions\<close>

text \<open>
  C7 (corrected). The claim: \<^verbatim>\<open>doorPositions\<close> holds at most 3 distinct coordinates, each
  a wall cell before door baking with at least one adjacent floor cell at generation
  time. The relaxed fallback of the source takes wall cells without looking at their
  neighbours: for the seed \<open>1\<close> and a 5 by 5 cellular-automata grid of density 0.9 without
  smoothing, the only floor cell is \<open>(1, 1)\<close>, and the door at \<open>(2, 2)\<close> has no floor cell
  among its four neighbours.
\<close>

theorem generateMaze_door_without_floor:
  "map_option m_doorPositions (mazeOf (generateMaze flatNoise (MazeGenerator_new (Some 1) 0)
     ((plainOptions 5 5 CELLULAR_AUTOMATA) \<lparr> opt_density := Some (9 / 10), opt_iterations := Some 0 \<rparr>) 0))
   = Some [(2, 1), (2, 2), (1, 2)]
   \<and> map_option (floorNeighbors (2, 2)) (layoutBefore flatNoise (MazeGenerator_new (Some 1) 0)
     ((plainOptions 5 5 CELLULAR_AUTOMATA) \<lparr> opt_density := Some (9 / 10), opt_iterations := Some 0 \<rparr>))
   = Some []"
  by code_simp

text \<open>
  C7 as amended: in every maze returned, \<^verbatim>\<open>doorPositions\<close> holds at most 3 coordinates,
  and each was a wall cell in the layout before door baking; when the first scan finds
  at least 3 candidates (so that the fallback does not run), the coordinates are distinct
  and each has at least one adjacent floor cell in that layout. In the fallback a door may
  be any wall cell two or more cells from the edge.
\<close>

theorem generateMaze_doors:
  assumes "carveAndWall noise g options = Inr ls"
    and "generateMaze noise g options now = Some (Inr mg)"
  shows "length (m_doorPositions (fst mg)) \<le> 3 \<and>
         list_all (isWall (fst ls)) (m_doorPositions (fst mg)) \<and>
         (3 \<le> length (doorCandidates (fst ls)) \<longrightarrow>
            distinct (m_doorPositions (fst mg)) \<and>
            list_all (hasFloorNeighbor (fst ls)) (m_doorPositions (fst mg)))"
proof -
  from generateMaze_returns [OF assms(2)] assms(1) obtain st ds where
    gd: "generateDoorPositions (fst ls) (findFloorTiles (fst ls)) 3 st = Inr ds"
    and doors: "m_doorPositions (fst mg) = fst ds"
    by auto
  from generateDoorPositions_props [OF gd] doors show ?thesis by simp
qed

theorem generateMaze_doors_witness:
  "\<exists>ls mg. carveAndWall flatNoise (MazeGenerator_new None 1700000000000) (plainOptions 7 7 BINARY_TREE) = Inr ls
     \<and> generateMaze flatNoise (MazeGenerator_new None 1700000000000) (plainOptions 7 7 BINARY_TREE) 0
         = Some (Inr mg)
     \<and> 3 \<le> length (doorCandidates (fst ls))
     \<and> length (m_doorPositions (fst mg)) \<le> 3
     \<and> list_all (isWall (fst ls)) (m_doorPositions (fst mg))
     \<and> distinct (m_doorPositions (fst mg))
     \<and> list_all (hasFloorNeighbor (fst ls)) (m_doorPositions (fst mg))"
proof -
  from mazeOf_Some [OF run_tree_clock_a] obtain mg where
    mg: "generateMaze flatNoise (MazeGenerator_new None 1700000000000) (plainOptions 7 7 BINARY_TREE) 0
         = Some (Inr mg)" by blast
  from generateMaze_returns [OF mg] obtain ls where
    ls: "carveAndWall flatNoise (MazeGenerator_new None 1700000000000) (plainOptions 7 7 BINARY_TREE) = Inr ls"
    by blast
  from run_tree_candidates ls have "3 \<le> length (doorCandidates (fst ls))"
    by (simp add: layoutBefore_def)
  with generateMaze_doors [OF ls mg] ls mg show ?thesis
    by blast
qed

subsection \<open>C6: the cellular rule\<close>

text \<open>
  C6 (corrected). The claim: in each cellular-automata iteration and each smoothing round
  a cell becomes \<open>WALL\<close> exactly when the count of walls among its 8 neighbours, the cell
  itself excluded and neighbours outside the grid counted as walls, is at least 5. The
  loops of the source run over the 3 by 3 block, the cell included. In the grid with walls
  at the centre and the four corners the centre has 4 walls among its 8 neighbours, so it
  would become \<open>FLOOR\<close>; the iteration and the smoothing round both count 5 and leave it
  \<open>WALL\<close>. The smoothing round moreover only rewrites inner cells: the cell \<open>(1, 0)\<close> has 6
  walls around it, the three outside the grid included, and stays \<open>FLOOR\<close>.
\<close>

theorem caIteration_counts_the_cell_itself:
  "tileAfter (caIteration 3 3 0 (gridOf [[WALL, FLOOR, WALL], [FLOOR, WALL, FLOOR], [WALL, FLOOR, WALL]])) 1 1
     = Some WALL
   \<and> tileAfter (smoothRound 0 (gridOf [[WALL, FLOOR, WALL], [FLOOR, WALL, FLOOR], [WALL, FLOOR, WALL]])) 1 1
     = Some WALL
   \<and> specNextTile (gridOf [[WALL, FLOOR, WALL], [FLOOR, WALL, FLOOR], [WALL, FLOOR, WALL]]) 3 3 1 1 = FLOOR
   \<and> tileAfter (smoothRound 0 (gridOf [[WALL, FLOOR, WALL], [FLOOR, WALL, FLOOR], [WALL, FLOOR, WALL]])) 1 0
     = Some FLOOR
   \<and> specNextTile (gridOf [[WALL, FLOOR, WALL], [FLOOR, WALL, FLOOR], [WALL, FLOOR, WALL]]) 3 3 1 0 = WALL"
  by code_simp

text \<open>
  C6 as amended: on a grid of \<open>height > 0\<close> rows of \<open>width\<close> cells, each
  cellular-automata iteration returns a grid in which a cell is \<open>WALL\<close> exactly when the
  count of walls in the 3 by 3 block around it in the old grid, the cell itself included
  and cells outside the grid counted as walls, is at least 5, and \<open>FLOOR\<close> otherwise. Each
  smoothing round does the same to the cells that are not on the outer ring, and leaves
  the cells of the outer ring as they are. Both read the old grid only.
\<close>

theorem caIteration_smoothRound_rule:
  assumes "rectangular layout width height" and "0 < height"
  shows "(\<exists>l'. caIteration width height i layout = Inr l' \<and>
            (\<forall>x y. 0 \<le> x \<and> x < width \<and> 0 \<le> y \<and> y < height \<longrightarrow>
               cell l' y x = Some (majorityTile (wallsAround layout width height x y)))) \<and>
         (\<exists>l'. smoothRound j layout = Inr l' \<and>
            (\<forall>x y. 0 \<le> x \<and> x < width \<and> 0 \<le> y \<and> y < height \<longrightarrow>
               cell l' y x =
                 (if 1 \<le> x \<and> x \<le> width - 2 \<and> 1 \<le> y \<and> y \<le> height - 2
                  then Some (majorityTile (wallsAround layout width height x y))
                  else cell layout y x)))"
proof -
  have r: "rows layout = height" and len: "\<And>y. 0 \<le> y \<Longrightarrow> y < height \<Longrightarrow> rowlen layout y = width"
    using assms(1) by (auto simp: rectangular_def list_all_iff)
  have w: "rowlen layout 0 = width" using len [of 0] assms(2) by simp
  have "height \<le> rows layout" using r by simp
  from applyCellularAutomataRules_cells [OF this, of width]
  have ca: "\<exists>l'. caIteration width height i layout = Inr l' \<and>
            (\<forall>x y. 0 \<le> x \<and> x < width \<and> 0 \<le> y \<and> y < height \<longrightarrow>
               cell l' y x = Some (majorityTile (wallsAround layout width height x y)))"
    by (auto simp: caIteration_def)
  have "0 < rows layout" "\<forall>y. 0 \<le> y \<and> y < rows layout \<longrightarrow> rowlen layout 0 \<le> rowlen layout y"
    using r w len assms(2) by auto
  from smoothCaves_cells [OF this]
  have "\<exists>l'. smoothRound j layout = Inr l' \<and>
            (\<forall>x y. 0 \<le> x \<and> x < width \<and> 0 \<le> y \<and> y < height \<longrightarrow>
               cell l' y x =
                 (if 1 \<le> x \<and> x \<le> width - 2 \<and> 1 \<le> y \<and> y \<le> height - 2
                  then Some (majorityTile (wallsAround layout width height x y))
                  else cell layout y x))"
    unfolding r w by (auto simp: smoothRound_def)
  with ca show ?thesis by blast
qed

theorem caIteration_smoothRound_rule_witness:
  "rectangular (gridOf [[WALL, FLOOR, WALL], [FLOOR, WALL, FLOOR], [WALL, FLOOR, WALL]]) 3 3
   \<and> (0 :: int) < 3
   \<and> (\<exists>l'. caIteration 3 3 0 (gridOf [[WALL, FLOOR, WALL], [FLOOR, WALL, FLOOR], [WALL, FLOOR, WALL]]) = Inr l'
         \<and> cell l' 1 1 = Some WALL \<and> cell l' 0 1 = Some WALL)
   \<and> (\<exists>l'. smoothRound 0 (gridOf [[WALL, FLOOR, WALL], [FLOOR, WALL, FLOOR], [WALL, FLOOR, WALL]]) = Inr l'
         \<and> cell l' 1 1 = Some WALL \<and> cell l' 0 1 = Some FLOOR)"
proof -
  let ?g = "gridOf [[WALL, FLOOR, WALL], [FLOOR, WALL, FLOOR], [WALL, FLOOR, WALL]]"
  have rect: "rectangular ?g 3 3"
    by (simp add: rectangular_def gridOf_def upto.simps)
  have c11: "majorityTile (wallsAround ?g 3 3 1 1) = WALL"
    by (simp add: majorityTile_def wallsAround_def wallOrOutside_def offsets_def gridOf_def)
  have c10: "majorityTile (wallsAround ?g 3 3 1 0) = WALL"
    by (simp add: majorityTile_def wallsAround_def wallOrOutside_def offsets_def gridOf_def)
  have g10: "cell ?g 0 1 = Some FLOOR"
    by (simp add: gridOf_def)
  from caIteration_smoothRound_rule [OF rect, of 0 0] obtain l1 l2 where
    l1: "caIteration 3 3 0 ?g = Inr l1"
      "\<forall>x y. 0 \<le> x \<and> x < 3 \<and> 0 \<le> y \<and> y < 3 \<longrightarrow>
         cell l1 y x = Some (majorityTile (wallsAround ?g 3 3 x y))"
    and l2: "smoothRound 0 ?g = Inr l2"
      "\<forall>x y. 0 \<le> x \<and> x < 3 \<and> 0 \<le> y \<and> y < 3 \<longrightarrow>
         cell l2 y x = (if 1 \<le> x \<and> x \<le> 3 - 2 \<and> 1 \<le> y \<and> y \<le> 3 - 2
                        then Some (majorityTile (wallsAround ?g 3 3 x y)) else cell ?g y x)"
    by auto
  from l1(2) [rule_format, of 1 1] l1(2) [rule_format, of 1 0] c11 c10
  have "cell l1 1 1 = Some WALL" "cell l1 0 1 = Some WALL" by simp_all
  moreover from l2(2) [rule_format, of 1 1] l2(2) [rule_format, of 1 0] c11 g10
  have "cell l2 1 1 = Some WALL" "cell l2 0 1 = Some FLOOR" by simp_all
  ultimately show ?thesis using rect l1(1) l2(1) by simp
qed

subsection \<open>C1: connectivity of the floor\<close>

text \<open>
  C1 (corrected). The claim: in every maze returned, a 4-directional flood fill from any
  floor cell visits every other floor cell, the repair running after boundary
  enforcement. The source repairs connectivity only inside the cellular-automata carver,
  before the boundary pass, and only between regions of more than 10 cells. For the seed
  \<open>1\<close> and a 5 by 5 cellular-automata grid without iterations, the maze returned has the
  floor cells \<open>(1, 1)\<close>, \<open>(2, 1)\<close>, \<open>(3, 1)\<close>, \<open>(1, 2)\<close> and \<open>(3, 3)\<close>, and the flood fill from
  \<open>(1, 1)\<close> does not visit \<open>(3, 3)\<close>.
\<close>

theorem generateMaze_floor_not_connected:
  "map_option (floodAndFloors (1, 1)) (mazeOf (generateMaze flatNoise (MazeGenerator_new (Some 1) 0)
     ((plainOptions 5 5 CELLULAR_AUTOMATA) \<lparr> opt_iterations := Some 0 \<rparr>) 0))
   = Some ([(1, 1), (1, 2), (2, 1), (3, 1)], [(1, 1), (2, 1), (3, 1), (1, 2), (3, 3)])"
  by code_simp

text \<open>
  C1 as amended: on a layout with at least one row, \<^verbatim>\<open>ensureConnectivity\<close> returns a
  layout in which every floor cell is still floor and any two cells of the regions of
  more than 10 cells its scan found are joined by a path of 4-adjacent floor cells.
  Regions of 10 cells or fewer are not joined to anything, the repair runs before the
  boundary pass (which may wall cells of such a path), and only the cellular-automata
  carver calls it.
\<close>

theorem ensureConnectivity_joins_large_regions:
  assumes "0 < rows layout"
  shows "\<exists>layout'. ensureConnectivity layout = Inr layout' \<and>
           (\<forall>c. isFloor layout c \<longrightarrow> isFloor layout' c) \<and>
           (\<forall>r1 \<in> set (largeRegions layout). \<forall>r2 \<in> set (largeRegions layout).
              \<forall>p \<in> set r1. \<forall>q \<in> set r2. joined layout' p q)"
proof -
  let ?regs = "largeRegions layout"
  note good = largeRegions_good [OF assms]
  have within: "joined l' p q"
    if "\<forall>c. isFloor layout c \<longrightarrow> isFloor l' c" "r \<in> set ?regs" "p \<in> set r" "q \<in> set r" for l' r p q
  proof -
    have "joined layout p q" using good [OF that(2)] that(3,4) by (auto simp: goodRegion_def)
    with that(1) show ?thesis by (rule joined_mono)
  qed
  show ?thesis
  proof (cases "length ?regs > 1")
    case True
    then obtain r0 rs where regs: "?regs = r0 # rs" by (cases ?regs) auto
    have "inRows layout r0" "\<forall>r \<in> set rs. inRows layout r"
      using good regs by (auto intro: goodRegion_inRows)
    from forE_connectTo [OF this] obtain l' where
      l': "forE (connectTo r0) rs layout = Inr l'" "\<forall>c. isFloor layout c \<longrightarrow> isFloor l' c"
        "\<forall>r \<in> set rs. \<exists>p \<in> set r0. \<exists>q \<in> set r. joined l' p q" by blast
    have r0: "r0 \<noteq> []" using \<open>inRows layout r0\<close> by (simp add: inRows_def)
    have bridge: "\<exists>a \<in> set r0. \<exists>b \<in> set r. joined l' a b" if "r \<in> set ?regs" for r
    proof (cases "r = r0")
      case True
      then have "hd r0 \<in> set r0" "hd r0 \<in> set r" using r0 by auto
      then show ?thesis using joined_refl by blast
    next
      case False
      then show ?thesis using l'(3) that regs by auto
    qed
    have "joined l' p q" if "r1 \<in> set ?regs" "r2 \<in> set ?regs" "p \<in> set r1" "q \<in> set r2" for r1 r2 p q
    proof -
      from bridge [OF that(1)] obtain a1 b1 where 1: "a1 \<in> set r0" "b1 \<in> set r1" "joined l' a1 b1" by blast
      from bridge [OF that(2)] obtain a2 b2 where 2: "a2 \<in> set r0" "b2 \<in> set r2" "joined l' a2 b2" by blast
      have r0in: "r0 \<in> set ?regs" using regs by simp
      have "joined l' p b1" using within [OF l'(2) that(1) that(3) 1(2)] .
      also have "joined l' b1 a1" using 1(3) by (rule joined_sym)
      also have "joined l' a1 a2" using within [OF l'(2) r0in 1(1) 2(1)] .
      also have "joined l' a2 b2" using 2(3) .
      also have "joined l' b2 q" using within [OF l'(2) that(2) 2(2) that(4)] .
      finally show ?thesis .
    qed
    moreover have "ensureConnectivity layout = Inr l'"
      using True regs l'(1) by (simp add: ensureConnectivity_eq [OF assms])
    ultimately show ?thesis using l'(2) by blast
  next
    case False
    then have one: "r1 = r2" if "r1 \<in> set ?regs" "r2 \<in> set ?regs" for r1 r2
      using that by (cases ?regs) auto
    have "joined layout p q" if "r1 \<in> set ?regs" "r2 \<in> set ?regs" "p \<in> set r1" "q \<in> set r2" for r1 r2 p q
      using within [of layout r1 p q] that one [OF that(1,2)] by simp
    moreover have "ensureConnectivity layout = Inr layout"
      using False by (simp add: ensureConnectivity_eq [OF assms])
    ultimately show ?thesis by blast
  qed
qed

theorem ensureConnectivity_joins_large_regions_witness:
  "0 < rows twoHalls \<and>
   (\<exists>layout'. ensureConnectivity twoHalls = Inr layout' \<and> joined layout' (0, 0) (4, 6))"
proof -
  have rows: "0 < rows twoHalls"
    by (simp add: twoHalls_def gridOf_def)
  have "list_ex (\<lambda>r. (0, 0) \<in> set r) (largeRegions twoHalls)"
    "list_ex (\<lambda>r. (4, 6) \<in> set r) (largeRegions twoHalls)"
    by code_simp+
  then obtain r1 r2 where "r1 \<in> set (largeRegions twoHalls)" "(0, 0) \<in> set r1"
    "r2 \<in> set (largeRegions twoHalls)" "(4, 6) \<in> set r2"
    by (auto simp: list_ex_iff)
  with ensureConnectivity_joins_large_regions [OF rows] rows show ?thesis by blast
qed

end
